theory Spec2Isabelle
  imports Main "HOL-Library.Word"
begin

section \<open>Bytes, text and exceptions\<close>

text \<open>
  The program is \<^verbatim>\<open>string_table_tools.py\<close>: a cursor-based reader over the bytes
  of an Unreal Engine asset (\<^verbatim>\<open>AssetReader\<close>), the header resolver
  \<^verbatim>\<open>get_asset_meta\<close> and the two entry points \<^verbatim>\<open>parse_meta\<close> and
  \<^verbatim>\<open>parse_string_table\<close>.

  A Python \<^verbatim>\<open>bytes\<close> object is a list of 8-bit words. A Python \<^verbatim>\<open>str\<close> is a
  sequence of Unicode code points, modelled as the list of their numbers (what
  \<^verbatim>\<open>ord\<close> returns). Python integers are unbounded: they are \<open>int\<close>.
\<close>

type_synonym byte = "8 word"
type_synonym pystr = "int list"

text \<open>
  The exceptions the parsing code can raise, by the place that raises them:
  \<^item> \<open>StructError\<close>: \<^verbatim>\<open>struct.error\<close>, raised by \<^verbatim>\<open>struct.unpack\<close> when the slice
    it is given has not the size of the format (the spec's \<^verbatim>\<open>BufferUnderrun\<close>);
  \<^item> \<open>UnicodeDecodeError\<close>: raised by \<^verbatim>\<open>bytes.decode\<close>;
  \<^item> \<open>NotValidUasset\<close>: \<^verbatim>\<open>ValueError("Not a valid .uasset file")\<close> (the spec's
    \<^verbatim>\<open>NotAContainerFile\<close>);
  \<^item> \<open>StringNotNullTerminated\<close>: \<^verbatim>\<open>AssetParseException("String not null terminated")\<close>
    (the spec's \<^verbatim>\<open>EncodingError\<close>);
  \<^item> \<open>NotSuitableStringTable\<close>: \<^verbatim>\<open>AssetParseException("Not a suitable string table")\<close>
    (the spec's \<^verbatim>\<open>UnsupportedAssetType\<close>);
  \<^item> \<open>AssetCodeMismatch\<close>: \<^verbatim>\<open>AssetParseException("Asset code mismatch")\<close> (the spec's
    \<^verbatim>\<open>GuidMismatch\<close>).
  The entry points catch every exception \<^verbatim>\<open>e\<close> and raise \<^verbatim>\<open>AssetParseException(e)\<close>:
  that wrapper is the type \<open>error\<close> (the spec's \<^verbatim>\<open>ParseError\<close>).
\<close>

datatype exn =
    StructError
  | UnicodeDecodeError
  | NotValidUasset
  | StringNotNullTerminated
  | NotSuitableStringTable
  | AssetCodeMismatch

datatype error = AssetParseException exn

section \<open>Python's slices, \<^verbatim>\<open>bytes.find\<close> and \<^verbatim>\<open>struct\<close>\<close>

text \<open>
  \<^verbatim>\<open>xs[i:j]\<close>: a negative index counts from the end, and both indices are clipped to
  the sequence. A slice never raises; it is shorter than \<open>j - i\<close> when the indices
  leave the sequence.
\<close>

definition slice_index :: "nat \<Rightarrow> int \<Rightarrow> nat" where
  "slice_index n i = (if i < 0 then nat (max 0 (int n + i)) else min (nat i) n)"

definition py_slice :: "'a list \<Rightarrow> int \<Rightarrow> int \<Rightarrow> 'a list" where
  "py_slice xs i j =
     (let s = slice_index (length xs) i; e = slice_index (length xs) j
      in take (e - s) (drop s xs))"

text \<open>
  \<^verbatim>\<open>data.find(sub, start)\<close>: the lowest index at or after \<open>start\<close> where \<open>sub\<close>
  occurs, or \<open>-1\<close>. A negative \<open>start\<close> counts from the end.
\<close>

fun find_aux :: "'a list \<Rightarrow> 'a list \<Rightarrow> nat \<Rightarrow> int" where
  "find_aux sub [] i = (if sub = [] then int i else -1)"
| "find_aux sub (x # xs) i =
     (if take (length sub) (x # xs) = sub then int i else find_aux sub xs (Suc i))"

definition py_find :: "'a list \<Rightarrow> 'a list \<Rightarrow> int \<Rightarrow> int" where
  "py_find xs sub start =
     (let s = (if start < 0 then nat (max 0 (int (length xs) + start)) else nat start)
      in if length xs < s then -1 else find_aux sub (drop s xs) s)"

text \<open>
  \<^verbatim>\<open>struct.unpack("I", bs)\<close> and \<^verbatim>\<open>struct.unpack("i", bs)\<close>: four bytes, in the
  machine's byte order, which is little-endian on the machines the tool runs on
  (and in the spec). Any other size raises \<^verbatim>\<open>struct.error\<close>.
  \<^verbatim>\<open>struct.pack("i", v)\<close> is the inverse, for \<open>v\<close> in the signed 32-bit range.
\<close>

definition le_value :: "byte \<Rightarrow> byte \<Rightarrow> byte \<Rightarrow> byte \<Rightarrow> int" where
  "le_value b0 b1 b2 b3 = uint b0 + 256 * uint b1 + 65536 * uint b2 + 16777216 * uint b3"

fun unpack_I :: "byte list \<Rightarrow> exn + int" where
  "unpack_I [b0, b1, b2, b3] = Inr (le_value b0 b1 b2 b3)"
| "unpack_I _ = Inl StructError"

fun unpack_i :: "byte list \<Rightarrow> exn + int" where
  "unpack_i [b0, b1, b2, b3] =
     (let u = le_value b0 b1 b2 b3 in Inr (if 2147483648 \<le> u then u - 4294967296 else u))"
| "unpack_i _ = Inl StructError"

definition pack_i :: "int \<Rightarrow> byte list" where
  "pack_i v = [word_of_int v, word_of_int (v div 256), word_of_int (v div 65536),
               word_of_int (v div 16777216)]"

section \<open>Python's codecs\<close>

text \<open>
  \<^verbatim>\<open>bs.decode('ascii')\<close>: one code point per byte; a byte above 127 raises
  \<^verbatim>\<open>UnicodeDecodeError\<close>.
\<close>

definition decode_ascii :: "byte list \<Rightarrow> exn + pystr" where
  "decode_ascii bs =
     (if list_all (\<lambda>b. uint b < 128) bs then Inr (map uint bs) else Inl UnicodeDecodeError)"

text \<open>
  \<^verbatim>\<open>bs.decode('utf-16')\<close>. The codec \<^verbatim>\<open>'utf-16'\<close> (unlike \<^verbatim>\<open>'utf-16-le'\<close>) looks at
  the first two bytes: \<^verbatim>\<open>FF FE\<close> is a little-endian byte-order mark and \<^verbatim>\<open>FE FF\<close> a
  big-endian one; the mark is consumed and is not part of the result. Without a mark
  the machine's order (little-endian) is used. A surrogate pair is one code point; a
  surrogate without its partner, and an odd number of bytes, raise
  \<^verbatim>\<open>UnicodeDecodeError\<close>.
\<close>

fun units_le :: "byte list \<Rightarrow> int list" where
  "units_le (a # b # bs) = (uint a + 256 * uint b) # units_le bs"
| "units_le _ = []"

fun units_be :: "byte list \<Rightarrow> int list" where
  "units_be (a # b # bs) = (256 * uint a + uint b) # units_be bs"
| "units_be _ = []"

fun decode_units :: "int list \<Rightarrow> exn + pystr" where
  "decode_units [] = Inr []"
| "decode_units (u # us) =
     (if u < 0xD800 \<or> 0xDFFF < u then
        (case decode_units us of Inl e \<Rightarrow> Inl e | Inr cs \<Rightarrow> Inr (u # cs))
      else if u \<le> 0xDBFF then
        (case us of
           [] \<Rightarrow> Inl UnicodeDecodeError
         | l # us' \<Rightarrow>
             if 0xDC00 \<le> l \<and> l \<le> 0xDFFF then
               (case decode_units us' of
                  Inl e \<Rightarrow> Inl e
                | Inr cs \<Rightarrow> Inr ((0x10000 + (u - 0xD800) * 0x400 + (l - 0xDC00)) # cs))
             else Inl UnicodeDecodeError)
      else Inl UnicodeDecodeError)"

definition decode_utf16 :: "byte list \<Rightarrow> exn + pystr" where
  "decode_utf16 bs =
     (if odd (length bs) then Inl UnicodeDecodeError
      else if take 2 bs = [0xFF, 0xFE] then decode_units (units_le (drop 2 bs))
      else if take 2 bs = [0xFE, 0xFF] then decode_units (units_be (drop 2 bs))
      else decode_units (units_le bs))"

text \<open>The two encodings \<^verbatim>\<open>read_string\<close> passes to \<^verbatim>\<open>bytes.decode\<close>.\<close>

datatype encoding = utf_16 | ascii

fun decode :: "byte list \<Rightarrow> encoding \<Rightarrow> exn + pystr" where
  "decode bs utf_16 = decode_utf16 bs"
| "decode bs ascii = decode_ascii bs"

section \<open>The reader\<close>

text \<open>
  \<^verbatim>\<open>AssetReader\<close> has two private fields: \<^verbatim>\<open>__data\<close>, the bytes, and \<^verbatim>\<open>__cursor\<close>,
  a Python integer that starts at 0. Nothing keeps the cursor inside the buffer, or
  non-negative.

  A method that can raise returns \<open>exn + (result \<times> reader)\<close>: \<open>Inl\<close> is the
  exception, \<open>Inr\<close> the returned value with the reader after the call.
\<close>

record AssetReader =
  data :: "byte list"
  cursor :: int

record Meta =
  file_version :: int
  license_version :: int
  ue_version :: int
  cook_version :: int
  asset_type :: int
  data_offset :: int
  path :: pystr
  asset_guid :: pystr

definition new_reader :: "byte list \<Rightarrow> AssetReader" where
  "new_reader d = \<lparr>data = d, cursor = 0\<rparr>"

definition andthen ::
  "exn + ('a \<times> AssetReader) \<Rightarrow> ('a \<Rightarrow> AssetReader \<Rightarrow> exn + 'b) \<Rightarrow> exn + 'b" where
  "andthen m f = (case m of Inl e \<Rightarrow> Inl e | Inr (v, r) \<Rightarrow> f v r)"

definition skip :: "AssetReader \<Rightarrow> int \<Rightarrow> AssetReader" where
  "skip r count = r\<lparr>cursor := cursor r + count\<rparr>"

definition reset :: "AssetReader \<Rightarrow> int \<Rightarrow> AssetReader" where
  "reset r position = r\<lparr>cursor := position\<rparr>"

definition read_int :: "AssetReader \<Rightarrow> exn + (int \<times> AssetReader)" where
  "read_int r =
     (case unpack_i (py_slice (data r) (cursor r) (cursor r + 4)) of
        Inl e \<Rightarrow> Inl e
      | Inr value \<Rightarrow> Inr (value, r\<lparr>cursor := cursor r + 4\<rparr>))"

definition read_uint :: "AssetReader \<Rightarrow> exn + (int \<times> AssetReader)" where
  "read_uint r =
     (case unpack_I (py_slice (data r) (cursor r) (cursor r + 4)) of
        Inl e \<Rightarrow> Inl e
      | Inr value \<Rightarrow> Inr (value, r\<lparr>cursor := cursor r + 4\<rparr>))"

text \<open>
  \<^verbatim>\<open>read_string\<close>. \<^verbatim>\<open>struct.unpack("%ds" % count, slice)\<close> raises \<^verbatim>\<open>struct.error\<close>
  unless the slice has exactly \<open>count\<close> bytes, and returns the slice otherwise.
\<close>

definition read_string :: "AssetReader \<Rightarrow> exn + (pystr \<times> AssetReader)" where
  "read_string r =
     andthen (read_int r) (\<lambda>count r.
       let (count, encoding) = (if count < 0 then (- count * 2, utf_16) else (count, ascii));
           bs = py_slice (data r) (cursor r) (cursor r + count)
       in if int (length bs) \<noteq> count then Inl StructError
          else case decode bs encoding of
                 Inl e \<Rightarrow> Inl e
               | Inr value \<Rightarrow>
                   if value \<noteq> [] \<and> last value = 0
                   then Inr (butlast value, r\<lparr>cursor := cursor r + count\<rparr>)
                   else Inl StringNotNullTerminated)"

definition find_int :: "AssetReader \<Rightarrow> int \<Rightarrow> int" where
  "find_int r value = py_find (data r) (pack_i value) (cursor r)"

definition validate :: "AssetReader \<Rightarrow> exn + (unit \<times> AssetReader)" where
  "validate r =
     andthen (read_uint r) (\<lambda>magic_number r.
       if magic_number \<noteq> 0x9E2A83C1 then Inl NotValidUasset
       else Inr ((), reset r 0))"

definition get_asset_meta :: "AssetReader \<Rightarrow> exn + (Meta \<times> AssetReader)" where
  "get_asset_meta r0 =
     (let r = skip r0 4 in
      andthen (read_int r) (\<lambda>file_version r.
      andthen (read_uint r) (\<lambda>license_version r.
      andthen (read_uint r) (\<lambda>ue_version r.
      andthen (read_uint r) (\<lambda>cook_version r.
      let r = (if cook_version = 0 \<and> file_version \<noteq> - 8 then skip r (- 4) else r);
          r = skip r 4
      in
      andthen (read_uint r) (\<lambda>asset_type r.
      let find_int = find_int r 40;
          r = reset r (find_int + 4)
      in
      andthen (read_uint r) (\<lambda>data_offset r.
      andthen (read_string r) (\<lambda>path r.
      let r = skip r 12 in
      andthen (read_int r) (\<lambda>v r.
      let r = (if v = 0 then skip r 4 else skip r (- 4)) in
      andthen (read_string r) (\<lambda>asset_guid r.
      let r = reset r 0 in
      Inr (\<lparr>file_version = file_version, license_version = license_version,
            ue_version = ue_version, cook_version = cook_version,
            asset_type = asset_type, data_offset = data_offset,
            path = path, asset_guid = asset_guid\<rparr>, r)))))))))))"

definition wrap :: "exn + ('a \<times> AssetReader) \<Rightarrow> error + 'a" where
  "wrap m = (case m of Inl e \<Rightarrow> Inl (AssetParseException e) | Inr (v, r) \<Rightarrow> Inr v)"

definition parse_meta :: "byte list \<Rightarrow> error + Meta" where
  "parse_meta d =
     wrap (let content = new_reader d in
           andthen (validate content) (\<lambda>_ content. get_asset_meta content))"

text \<open>
  The loop \<^verbatim>\<open>for _ in range(count)\<close> of \<^verbatim>\<open>parse_string_table\<close>: \<^verbatim>\<open>range(count)\<close> has
  \<open>count\<close> elements when \<open>count\<close> is positive and none otherwise, so the loop runs
  \<open>nat count\<close> times.
\<close>

fun read_entries ::
  "nat \<Rightarrow> AssetReader \<Rightarrow> (pystr \<times> pystr) list \<Rightarrow> exn + ((pystr \<times> pystr) list \<times> AssetReader)"
where
  "read_entries 0 r out = Inr (out, r)"
| "read_entries (Suc n) r out =
     andthen (read_string r) (\<lambda>key r.
     andthen (read_string r) (\<lambda>value r.
     read_entries n r (out @ [(key, value)])))"

text \<open>
  \<^verbatim>\<open>parse_string_table\<close> up to and including the read of the number of entries
  (the statements before the loop).
\<close>

definition read_table_head :: "byte list \<Rightarrow> exn + (int \<times> AssetReader)" where
  "read_table_head d =
     (let content = new_reader d in
      andthen (validate content) (\<lambda>_ content.
      andthen (get_asset_meta content) (\<lambda>meta content.
      if asset_type meta \<noteq> 1 then Inl NotSuitableStringTable
      else
        let content = reset content (data_offset meta);
            content = skip content 28
        in
        andthen (read_string content) (\<lambda>asset_guid content.
        if asset_guid \<noteq> Meta.asset_guid meta then Inl AssetCodeMismatch
        else
          let content = skip content 12 in
          andthen (read_string content) (\<lambda>_ content.
          read_int content)))))"

definition parse_string_table :: "byte list \<Rightarrow> error + (pystr \<times> pystr) list" where
  "parse_string_table d =
     wrap (andthen (read_table_head d) (\<lambda>count content.
           read_entries (nat count) content []))"

section \<open>Encoding strings and building test buffers\<close>

text \<open>
  The repository has no encoder and no buffer builder: it only reads. The spec's
  round-trip properties speak of "encoding a text value as length-prefixed ASCII or
  UTF-16 and NUL-terminating it" and of "a test buffer builder". The definitions of
  this section follow those words and the layout of the spec's end-to-end scenario;
  they are what the reader is run on, not part of the program.
\<close>

text \<open>
  Modelled from the spec: the encoder of an ASCII string, which the repository does
  not have. "A non-negative length \<open>n\<close> encodes \<open>n\<close> single-byte characters", "both
  forms NUL-terminated": the number of bytes, terminator included, as a signed 32-bit
  integer, then one byte for each character, then the byte 0.
\<close>

definition encode_ascii :: "pystr \<Rightarrow> byte list" where
  "encode_ascii s = pack_i (int (length s) + 1) @ map word_of_int s @ [0]"

text \<open>
  Modelled from the spec: the encoder of a wide string, which the repository does not
  have. "A negative length \<open>-n\<close> encodes \<open>n\<close> UTF-16 code units (\<open>2n\<close> bytes)": minus
  the number of code units, terminator included, then two bytes (little-endian, as
  every other field of the format) for each code unit, then the code unit 0. A code
  point above \<open>0xFFFF\<close> is a surrogate pair. No byte-order mark is written: the
  code units are those of the text and of the terminator.
\<close>

fun utf16_units :: "pystr \<Rightarrow> int list" where
  "utf16_units [] = []"
| "utf16_units (c # cs) =
     (if c < 0x10000 then [c]
      else [0xD800 + (c - 0x10000) div 0x400, 0xDC00 + (c - 0x10000) mod 0x400])
     @ utf16_units cs"

fun units_bytes :: "int list \<Rightarrow> byte list" where
  "units_bytes [] = []"
| "units_bytes (u # us) = word_of_int u # word_of_int (u div 256) # units_bytes us"

definition encode_utf16 :: "pystr \<Rightarrow> byte list" where
  "encode_utf16 s =
     (let us = utf16_units s @ [0] in pack_i (- int (length us)) @ units_bytes us)"

text \<open>
  The texts that can be encoded: every character of an ASCII text is below 128, every
  character of a wide text is a Unicode scalar value (a code point that is not a
  surrogate), and the length prefix fits a signed 32-bit integer.
\<close>

definition is_ascii :: "pystr \<Rightarrow> bool" where
  "is_ascii s = list_all (\<lambda>c. 0 \<le> c \<and> c < 128) s"

definition ascii_text :: "pystr \<Rightarrow> bool" where
  "ascii_text s \<longleftrightarrow> is_ascii s \<and> int (length s) + 1 < 2147483648"

definition scalar_value :: "int \<Rightarrow> bool" where
  "scalar_value c \<longleftrightarrow> 0 \<le> c \<and> c < 0x110000 \<and> \<not> (0xD800 \<le> c \<and> c \<le> 0xDFFF)"

definition utf16_text :: "pystr \<Rightarrow> bool" where
  "utf16_text s \<longleftrightarrow>
     list_all scalar_value s \<and> int (length (utf16_units s)) + 1 \<le> 2147483648"

text \<open>A text whose first character is U+FEFF or U+FFFE: its encoding begins with the
  bytes of a byte-order mark.\<close>

fun bom_led :: "pystr \<Rightarrow> bool" where
  "bom_led [] = False"
| "bom_led (c # cs) = (c = 0xFEFF \<or> c = 0xFFFE)"





section \<open>Example buffers\<close>

text \<open>
  The header of the spec's end-to-end scenario: file version 1, cook version 5, asset
  type 1, the anchor 40 at offset 28, data offset 76, path \<^verbatim>\<open>/Game/X\<close>, probe 0 and
  GUID \<^verbatim>\<open>ABC\<close>. It is 76 bytes long.
\<close>

definition example_header :: "byte list" where
  "example_header =
     [0xC1, 0x83, 0x2A, 0x9E,  1, 0, 0, 0,  0, 0, 0, 0,  0, 0, 0, 0,  5, 0, 0, 0,
      0, 0, 0, 0,  1, 0, 0, 0,  0x28, 0, 0, 0,  76, 0, 0, 0,
      8, 0, 0, 0,  0x2F, 0x47, 0x61, 0x6D, 0x65, 0x2F, 0x58, 0,
      0, 0, 0, 0,  0, 0, 0, 0,  0, 0, 0, 0,  0, 0, 0, 0,  0, 0, 0, 0,
      4, 0, 0, 0,  0x41, 0x42, 0x43, 0]"

definition example_meta :: Meta where
  "example_meta =
     \<lparr>file_version = 1, license_version = 0, ue_version = 0, cook_version = 5,
      asset_type = 1, data_offset = 76, path = [47, 71, 97, 109, 101, 47, 88],
      asset_guid = [65, 66, 67]\<rparr>"




text \<open>
  A payload for offset 76: 28 bytes, the GUID given as \<open>guid\<close>, 12 bytes, the table
  name \<^verbatim>\<open>T\<close>, then \<open>rest\<close> (the number of entries and the entries).
\<close>

definition example_payload :: "byte list \<Rightarrow> byte list \<Rightarrow> byte list" where
  "example_payload guid rest =
     replicate 28 0 @ guid @ replicate 12 0 @ [2, 0, 0, 0, 0x54, 0] @ rest"

definition guid_ABC :: "byte list" where
  "guid_ABC = [4, 0, 0, 0, 0x41, 0x42, 0x43, 0]"

definition guid_ABD :: "byte list" where
  "guid_ABD = [4, 0, 0, 0, 0x41, 0x42, 0x44, 0]"

text \<open>The entry \<^verbatim>\<open>("Key1", "Value1")\<close>.\<close>

definition example_entry :: "byte list" where
  "example_entry =
     [5, 0, 0, 0,  0x4B, 0x65, 0x79, 0x31, 0,
      7, 0, 0, 0,  0x56, 0x61, 0x6C, 0x75, 0x65, 0x31, 0]"

text \<open>
  A string table whose number of entries is \<open>-1\<close>, and five that declare three
  entries and hold two. \<open>truncated_table\<close> ends after the second pair;
  \<open>zero_padded_table\<close> has four zero bytes after it; \<open>short_key_table\<close> has the
  length prefix 5 of a third key and one of its five bytes; \<open>missing_value_table\<close>
  has the third key \<^verbatim>\<open>Key1\<close> and no value; \<open>short_value_table\<close> has the third
  key, the length prefix 7 of its value and one of the seven bytes.
\<close>

definition negative_count_table :: "byte list" where
  "negative_count_table =
     example_header @ example_payload guid_ABC [0xFF, 0xFF, 0xFF, 0xFF]"

definition truncated_table :: "byte list" where
  "truncated_table =
     example_header @ example_payload guid_ABC ([3, 0, 0, 0] @ example_entry @ example_entry)"

definition zero_padded_table :: "byte list" where
  "zero_padded_table =
     example_header
     @ example_payload guid_ABC ([3, 0, 0, 0] @ example_entry @ example_entry @ [0, 0, 0, 0])"

definition short_key_table :: "byte list" where
  "short_key_table =
     example_header
     @ example_payload guid_ABC
         ([3, 0, 0, 0] @ example_entry @ example_entry @ [5, 0, 0, 0, 0x4B])"

definition missing_value_table :: "byte list" where
  "missing_value_table =
     example_header
     @ example_payload guid_ABC
         ([3, 0, 0, 0] @ example_entry @ example_entry @ [5, 0, 0, 0, 0x4B, 0x65, 0x79, 0x31, 0])"

definition short_value_table :: "byte list" where
  "short_value_table =
     example_header
     @ example_payload guid_ABC
         ([3, 0, 0, 0] @ example_entry @ example_entry
          @ [5, 0, 0, 0, 0x4B, 0x65, 0x79, 0x31, 0,  7, 0, 0, 0, 0x56])"

text \<open>
  A string table with one entry whose GUID in the payload, \<^verbatim>\<open>ABD\<close>, is not the GUID
  of its header.
\<close>

definition mismatched_table :: "byte list" where
  "mismatched_table =
     example_header @ example_payload guid_ABD ([1, 0, 0, 0] @ example_entry)"

text \<open>
  A buffer of 29 bytes with the magic number and no occurrence of the bytes
  \<^verbatim>\<open>28 00 00 00\<close> (the integer 40) anywhere.
\<close>

definition no_anchor_buffer :: "byte list" where
  "no_anchor_buffer =
     [0xC1, 0x83, 0x2A, 0x9E,  0, 0, 0, 1,  0, 0, 0, 0,  0, 0, 0, 0,  5, 0, 0, 0,
      0, 0, 0, 0,  1, 0, 0, 0,  0]"

definition no_anchor_meta :: Meta where
  "no_anchor_meta =
     \<lparr>file_version = 16777216, license_version = 0, ue_version = 0, cook_version = 5,
      asset_type = 1, data_offset = 158, path = [], asset_guid = []\<rparr>"

section \<open>Basic facts\<close>

lemma andthen_Inr [simp]: "andthen (Inr (v, r)) f = f v r"
  by (simp add: andthen_def)

lemma andthen_Inl [simp]: "andthen (Inl e) f = Inl e"
  by (simp add: andthen_def)

lemma andthen_eq_Inr:
  "andthen m f = Inr y \<longleftrightarrow> (\<exists>v r. m = Inr (v, r) \<and> f v r = Inr y)"
  by (cases m) (auto simp: andthen_def)

lemma py_slice_same: "py_slice xs i i = []"
  by (simp add: py_slice_def)

lemma py_slice_nonneg:
  "0 \<le> i \<Longrightarrow> 0 \<le> n \<Longrightarrow> py_slice xs i (i + n) = take (nat n) (drop (nat i) xs)"
  by (auto simp: py_slice_def slice_index_def Let_def min_def nat_add_distrib)

lemma length_py_slice_short:
  "0 \<le> i \<Longrightarrow> int (length xs) - i < 4 \<Longrightarrow> length (py_slice xs i (i + 4)) < 4"
  by (simp add: py_slice_nonneg)

lemma length_py_slice_le: "length (py_slice xs i j) \<le> length xs"
  by (simp add: py_slice_def Let_def)

lemma py_slice_remaining:
  assumes "int (length xs) - i < 4"
  shows "length (py_slice xs i (i + 4)) \<noteq> 4"
proof (cases "0 \<le> i")
  case True
  with assms length_py_slice_short [of i xs] show ?thesis by simp
next
  case False
  with assms have "length xs < 4" by simp
  with length_py_slice_le [of xs i "i + 4"] show ?thesis by simp
qed

lemma unpack_I_StructError: "length bs \<noteq> 4 \<Longrightarrow> unpack_I bs = Inl StructError"
  by (cases bs rule: unpack_I.cases) simp_all

lemma unpack_i_StructError: "length bs \<noteq> 4 \<Longrightarrow> unpack_i bs = Inl StructError"
  by (cases bs rule: unpack_i.cases) simp_all

lemma unpack_I_Inr: "unpack_I bs = Inr v \<Longrightarrow> length bs = 4 \<and> 0 \<le> v"
  by (cases bs rule: unpack_I.cases) (auto simp: le_value_def)

lemma unpack_i_Inr: "unpack_i bs = Inr v \<Longrightarrow> length bs = 4"
  by (cases bs rule: unpack_i.cases) simp_all

lemma read_int_Inr:
  "read_int r = Inr (v, r') \<Longrightarrow> r' = r\<lparr>cursor := cursor r + 4\<rparr>"
  by (auto simp: read_int_def split: sum.splits)

lemma read_uint_Inr:
  "read_uint r = Inr (v, r') \<Longrightarrow> r' = r\<lparr>cursor := cursor r + 4\<rparr> \<and> 0 \<le> v"
  by (auto simp: read_uint_def split: sum.splits dest: unpack_I_Inr)

lemma read_string_Inr:
  assumes "read_string r = Inr (s, r')"
  shows "data r' = data r \<and> cursor r + 4 \<le> cursor r'"
proof -
  from assms obtain count r1 where c: "read_int r = Inr (count, r1)"
    by (auto simp: read_string_def andthen_eq_Inr)
  from read_int_Inr [OF c] have r1: "r1 = r\<lparr>cursor := cursor r + 4\<rparr>" .
  show ?thesis
  proof (cases "count < 0")
    case True
    with assms c have "r' = r1\<lparr>cursor := cursor r1 + - count * 2\<rparr>"
      by (simp add: read_string_def Let_def split: if_splits sum.splits)
    with r1 True show ?thesis by simp
  next
    case False
    with assms c have "r' = r1\<lparr>cursor := cursor r1 + count\<rparr>"
      by (simp add: read_string_def Let_def split: if_splits sum.splits)
    with r1 False show ?thesis by simp
  qed
qed

lemma read_entries_Inr:
  "read_entries n r out = Inr (es, r') \<Longrightarrow> data r' = data r \<and> cursor r \<le> cursor r'"
proof (induction n arbitrary: r out)
  case 0
  then show ?case by simp
next
  case (Suc n)
  from Suc.prems obtain k r1 v r2 where
    k: "read_string r = Inr (k, r1)" and v: "read_string r1 = Inr (v, r2)"
    and rest: "read_entries n r2 (out @ [(k, v)]) = Inr (es, r')"
    by (auto simp: andthen_eq_Inr)
  from Suc.IH [OF rest] read_string_Inr [OF k] read_string_Inr [OF v]
  show ?case by simp
qed

lemma read_entries_length:
  "read_entries n r out = Inr (es, r') \<Longrightarrow> length es = length out + n"
proof (induction n arbitrary: r out)
  case 0
  then show ?case by simp
next
  case (Suc n)
  from Suc.prems obtain k r1 v r2 where
    rest: "read_entries n r2 (out @ [(k, v)]) = Inr (es, r')"
    by (auto simp: andthen_eq_Inr)
  from Suc.IH [OF rest] show ?case by simp
qed

lemma read_entries_append:
  "read_entries n r out = Inr (es, r') \<Longrightarrow>
   read_entries (n + k) r out = read_entries k r' es"
proof (induction n arbitrary: r out)
  case 0
  then show ?case by simp
next
  case (Suc n)
  from Suc.prems obtain key r1 v r2 where
    k: "read_string r = Inr (key, r1)" and v: "read_string r1 = Inr (v, r2)"
    and rest: "read_entries n r2 (out @ [(key, v)]) = Inr (es, r')"
    by (auto simp: andthen_eq_Inr)
  from Suc.IH [OF rest] k v show ?case by simp
qed

lemma validate_Inr:
  "validate r = Inr (u, r') \<Longrightarrow> cursor r' = 0 \<and> data r' = data r"
  by (auto simp: validate_def andthen_eq_Inr reset_def dest!: read_uint_Inr split: if_splits)

lemma get_asset_meta_trace:
  assumes "get_asset_meta r = Inr (m, r')"
  shows "\<exists>fv r1 lic r2 ue r3 cook r4 aty r5 off r6 p r7 v r8 g r9.
    read_int (skip r 4) = Inr (fv, r1) \<and>
    read_uint r1 = Inr (lic, r2) \<and>
    read_uint r2 = Inr (ue, r3) \<and>
    read_uint r3 = Inr (cook, r4) \<and>
    read_uint (skip (if cook = 0 \<and> fv \<noteq> - 8 then skip r4 (- 4) else r4) 4) = Inr (aty, r5) \<and>
    read_uint (reset r5 (find_int r5 40 + 4)) = Inr (off, r6) \<and>
    read_string r6 = Inr (p, r7) \<and>
    read_int (skip r7 12) = Inr (v, r8) \<and>
    read_string (if v = 0 then skip r8 4 else skip r8 (- 4)) = Inr (g, r9) \<and>
    m = \<lparr>file_version = fv, license_version = lic, ue_version = ue, cook_version = cook,
          asset_type = aty, data_offset = off, path = p, asset_guid = g\<rparr> \<and>
    r' = reset r9 0"
proof -
  from assms obtain fv r1 lic r2 ue r3 cook r4 aty r5 off r6 p r7 v r8 g r9 where
    s: "read_int (skip r 4) = Inr (fv, r1)"
    "read_uint r1 = Inr (lic, r2)"
    "read_uint r2 = Inr (ue, r3)"
    "read_uint r3 = Inr (cook, r4)"
    "read_uint (skip (if cook = 0 \<and> fv \<noteq> - 8 then skip r4 (- 4) else r4) 4) = Inr (aty, r5)"
    "read_uint (reset r5 (find_int r5 40 + 4)) = Inr (off, r6)"
    "read_string r6 = Inr (p, r7)"
    "read_int (skip r7 12) = Inr (v, r8)"
    "read_string (if v = 0 then skip r8 4 else skip r8 (- 4)) = Inr (g, r9)"
    and e: "Inr (\<lparr>file_version = fv, license_version = lic, ue_version = ue, cook_version = cook,
          asset_type = aty, data_offset = off, path = p, asset_guid = g\<rparr>, reset r9 0) = (Inr (m, r') :: exn + Meta \<times> AssetReader)"
    unfolding get_asset_meta_def andthen_eq_Inr Let_def
    by (elim exE conjE) (rule that)
  from e have "m = \<lparr>file_version = fv, license_version = lic, ue_version = ue,
      cook_version = cook, asset_type = aty, data_offset = off, path = p, asset_guid = g\<rparr>"
    and "r' = reset r9 0"
    by simp_all
  with s show ?thesis by blast
qed

lemma get_asset_meta_Inr:
  assumes "get_asset_meta r = Inr (m, r')"
  shows "cursor r' = 0 \<and> data r' = data r"
proof -
  from get_asset_meta_trace [OF assms]
  obtain fv r1 lic r2 ue r3 cook r4 aty r5 off r6 p r7 v r8 g r9 where
    s: "read_int (skip r 4) = Inr (fv, r1)"
    "read_uint r1 = Inr (lic, r2)"
    "read_uint r2 = Inr (ue, r3)"
    "read_uint r3 = Inr (cook, r4)"
    "read_uint (skip (if cook = 0 \<and> fv \<noteq> - 8 then skip r4 (- 4) else r4) 4) = Inr (aty, r5)"
    "read_uint (reset r5 (find_int r5 40 + 4)) = Inr (off, r6)"
    "read_string r6 = Inr (p, r7)"
    "read_int (skip r7 12) = Inr (v, r8)"
    "read_string (if v = 0 then skip r8 4 else skip r8 (- 4)) = Inr (g, r9)"
    and r': "r' = reset r9 0"
    by blast
  have "data r1 = data r" using read_int_Inr [OF s(1)] by (simp add: skip_def)
  moreover have "data r2 = data r1" using read_uint_Inr [OF s(2)] by simp
  moreover have "data r3 = data r2" using read_uint_Inr [OF s(3)] by simp
  moreover have "data r4 = data r3" using read_uint_Inr [OF s(4)] by simp
  moreover have "data r5 = data r4" using read_uint_Inr [OF s(5)] by (simp add: skip_def)
  moreover have "data r6 = data r5" using read_uint_Inr [OF s(6)] by (simp add: reset_def)
  moreover have "data r7 = data r6" using read_string_Inr [OF s(7)] by simp
  moreover have "data r8 = data r7" using read_int_Inr [OF s(8)] by (simp add: skip_def)
  moreover have "data r9 = data r8" using read_string_Inr [OF s(9)] by (simp add: skip_def)
  ultimately show ?thesis using r' by (simp add: reset_def)
qed

lemma wrap_Inl [simp]: "wrap (Inl e) = Inl (AssetParseException e)"
  by (simp add: wrap_def)

lemma wrap_Inr [simp]: "wrap (Inr (v, r)) = Inr v"
  by (simp add: wrap_def)

lemma read_uint_new_reader:
  "read_uint (new_reader (b0 # b1 # b2 # b3 # rest)) =
     Inr (le_value b0 b1 b2 b3, \<lparr>data = b0 # b1 # b2 # b3 # rest, cursor = 4\<rparr>)"
  by (simp add: read_uint_def new_reader_def py_slice_def slice_index_def)

lemma read_string_Inr_reader:
  assumes "read_string r = Inr (s, r')"
  shows "\<exists>n. r' = r\<lparr>cursor := n\<rparr>"
proof -
  from assms obtain count r1 where c: "read_int r = Inr (count, r1)"
    by (auto simp: read_string_def andthen_eq_Inr)
  from read_int_Inr [OF c] have r1: "r1 = r\<lparr>cursor := cursor r + 4\<rparr>" .
  from assms c have "\<exists>n. r' = r1\<lparr>cursor := n\<rparr>"
    by (cases "count < 0") (auto simp: read_string_def Let_def split: if_splits sum.splits)
  then obtain n where "r' = r1\<lparr>cursor := n\<rparr>" ..
  with r1 have "r' = r\<lparr>cursor := n\<rparr>" by simp
  then show ?thesis ..
qed

lemma get_asset_meta_steps:
  assumes "get_asset_meta r = Inr (m, r')"
  shows "\<exists>r1 r4 r5 r6 r7 v r8 r9.
    read_int (r\<lparr>cursor := cursor r + 4\<rparr>) = Inr (file_version m, r1)
    \<and> read_uint (r\<lparr>cursor := cursor r + 16\<rparr>) = Inr (cook_version m, r4)
    \<and> cursor r4 = cursor r + 20
    \<and> read_uint (r\<lparr>cursor := (if cook_version m = 0 \<and> file_version m \<noteq> - 8
                                 then cursor r4 - 4 else cursor r4) + 4\<rparr>)
        = Inr (asset_type m, r5)
    \<and> r5 = r\<lparr>cursor := (if cook_version m = 0 \<and> file_version m \<noteq> - 8
                             then cursor r4 - 4 else cursor r4) + 8\<rparr>
    \<and> read_uint (r\<lparr>cursor := find_int r5 40 + 4\<rparr>) = Inr (data_offset m, r6)
    \<and> r6 = r\<lparr>cursor := find_int r5 40 + 8\<rparr>
    \<and> read_string r6 = Inr (path m, r7)
    \<and> read_int (r\<lparr>cursor := cursor r7 + 12\<rparr>) = Inr (v, r8)
    \<and> cursor r8 = cursor r7 + 16
    \<and> read_string (r\<lparr>cursor := (if v = 0 then cursor r8 + 4 else cursor r8 - 4)\<rparr>)
        = Inr (asset_guid m, r9)"
proof -
  from get_asset_meta_trace [OF assms]
  obtain fv r1 lic r2 ue r3 cook r4 aty r5 off r6 p r7 v r8 g r9 where
    s: "read_int (skip r 4) = Inr (fv, r1)"
    "read_uint r1 = Inr (lic, r2)"
    "read_uint r2 = Inr (ue, r3)"
    "read_uint r3 = Inr (cook, r4)"
    "read_uint (skip (if cook = 0 \<and> fv \<noteq> - 8 then skip r4 (- 4) else r4) 4) = Inr (aty, r5)"
    "read_uint (reset r5 (find_int r5 40 + 4)) = Inr (off, r6)"
    "read_string r6 = Inr (p, r7)"
    "read_int (skip r7 12) = Inr (v, r8)"
    "read_string (if v = 0 then skip r8 4 else skip r8 (- 4)) = Inr (g, r9)"
    and m: "m = \<lparr>file_version = fv, license_version = lic, ue_version = ue,
      cook_version = cook, asset_type = aty, data_offset = off, path = p, asset_guid = g\<rparr>"
    by blast
  have r1: "r1 = r\<lparr>cursor := cursor r + 8\<rparr>"
    using read_int_Inr [OF s(1)] by (simp add: skip_def)
  have r2: "r2 = r\<lparr>cursor := cursor r + 12\<rparr>"
    using read_uint_Inr [OF s(2)] r1 by simp
  have r3: "r3 = r\<lparr>cursor := cursor r + 16\<rparr>"
    using read_uint_Inr [OF s(3)] r2 by simp
  have r4: "r4 = r\<lparr>cursor := cursor r + 20\<rparr>"
    using read_uint_Inr [OF s(4)] r3 by simp
  have a: "read_uint (r\<lparr>cursor := (if cook = 0 \<and> fv \<noteq> - 8 then cursor r4 - 4 else cursor r4) + 4\<rparr>)
      = Inr (aty, r5)"
  proof (cases "cook = 0 \<and> fv \<noteq> - 8")
    case True
    with s(5) r4 show ?thesis by (simp add: skip_def)
  next
    case False
    with s(5) r4 show ?thesis by (auto simp: skip_def)
  qed
  have r5': "r5 = r\<lparr>cursor := (if cook = 0 \<and> fv \<noteq> - 8 then cursor r4 - 4 else cursor r4) + 8\<rparr>"
    using read_uint_Inr [OF a] by simp
  then have r5: "\<exists>n. r5 = r\<lparr>cursor := n\<rparr>" ..
  then have b: "read_uint (r\<lparr>cursor := find_int r5 40 + 4\<rparr>) = Inr (off, r6)"
    using s(6) by (auto simp: reset_def)
  have r6': "r6 = r\<lparr>cursor := find_int r5 40 + 8\<rparr>"
    using read_uint_Inr [OF b] by simp
  then have r6: "\<exists>n. r6 = r\<lparr>cursor := n\<rparr>" ..
  from r6 obtain n6 where "r6 = r\<lparr>cursor := n6\<rparr>" ..
  moreover from read_string_Inr_reader [OF s(7)]
  obtain n7 where "r7 = r6\<lparr>cursor := n7\<rparr>" ..
  ultimately have r7: "r7 = r\<lparr>cursor := n7\<rparr>" by simp
  then have r7': "r7\<lparr>cursor := n\<rparr> = r\<lparr>cursor := n\<rparr>" for n
    by simp
  have c: "read_int (r\<lparr>cursor := cursor r7 + 12\<rparr>) = Inr (v, r8)"
    using s(8) r7' by (simp add: skip_def)
  have r8: "r8 = r\<lparr>cursor := cursor r7 + 16\<rparr>"
    using read_int_Inr [OF c] by simp
  have d: "read_string (r\<lparr>cursor := (if v = 0 then cursor r8 + 4 else cursor r8 - 4)\<rparr>) = Inr (g, r9)"
  proof (cases "v = 0")
    case True
    with s(9) r8 show ?thesis by (simp add: skip_def)
  next
    case False
    with s(9) r8 show ?thesis by (simp add: skip_def)
  qed
  have a0: "read_int (r\<lparr>cursor := cursor r + 4\<rparr>) = Inr (fv, r1)"
    using s(1) by (simp add: skip_def)
  have a4: "read_uint (r\<lparr>cursor := cursor r + 16\<rparr>) = Inr (cook, r4)"
    using s(4) r3 by simp
  have c4: "cursor r4 = cursor r + 20"
    using r4 by simp
  have c8: "cursor r8 = cursor r7 + 16"
    using r8 by simp
  have fm: "file_version m = fv" "cook_version m = cook" "asset_type m = aty"
    "data_offset m = off" "path m = p" "asset_guid m = g"
    by (simp_all add: m)
  show ?thesis
    unfolding fm using a0 a4 c4 a r5' b r6' s(7) c c8 d by blast
qed


lemma find_aux_none:
  "sub \<noteq> [] \<Longrightarrow> \<forall>k. take (length sub) (drop k xs) \<noteq> sub \<Longrightarrow> find_aux sub xs i = - 1"
proof (induction xs arbitrary: i)
  case Nil
  then show ?case by simp
next
  case (Cons x xs)
  from Cons.prems(2) have "take (length sub) (drop 0 (x # xs)) \<noteq> sub" by blast
  then have here: "take (length sub) (x # xs) \<noteq> sub" by simp
  have "take (length sub) (drop k xs) \<noteq> sub" for k
    using Cons.prems(2) [rule_format, of "Suc k"] by simp
  with Cons.IH [OF Cons.prems(1)] have "find_aux sub xs (Suc i) = - 1" by blast
  with here show ?case by simp
qed

lemma length_pack_i [simp]: "length (pack_i v) = 4"
  by (simp add: pack_i_def)

lemma find_int_none:
  assumes "0 \<le> cursor r"
    and "\<forall>k\<ge>nat (cursor r). take 4 (drop k (data r)) \<noteq> pack_i v"
  shows "find_int r v = - 1"
proof -
  have "take (length (pack_i v)) (drop k (drop (nat (cursor r)) (data r))) \<noteq> pack_i v" for k
    using assms(2) [rule_format, of "k + nat (cursor r)"] by (simp add: add.commute)
  then have "find_aux (pack_i v) (drop (nat (cursor r)) (data r)) (nat (cursor r)) = - 1"
    by (intro find_aux_none) (simp_all add: pack_i_def)
  with assms(1) show ?thesis
    by (simp add: find_int_def py_find_def Let_def)
qed

lemma if_Inl_eq_Inr: "((if c then Inl e else x) = Inr y) = (\<not> c \<and> x = Inr y)"
  by simp

lemma read_table_head_Inr:
  assumes "read_table_head d = Inr (count, r)"
  shows "data r = d \<and> 0 \<le> cursor r"
proof -
  from assms obtain u ra meta rb g rc nm rd where
    v: "validate (new_reader d) = Inr (u, ra)"
    and m: "get_asset_meta ra = Inr (meta, rb)"
    and g: "read_string (skip (reset rb (data_offset meta)) 28) = Inr (g, rc)"
    and n: "read_string (skip rc 12) = Inr (nm, rd)"
    and c: "read_int rd = Inr (count, r)"
    unfolding read_table_head_def andthen_eq_Inr Let_def if_Inl_eq_Inr
    by (elim exE conjE) (rule that)
  from get_asset_meta_steps [OF m] have off: "0 \<le> data_offset meta"
    by (elim exE conjE) (drule read_uint_Inr, simp)
  have "data ra = d"
    using validate_Inr [OF v] by (simp add: new_reader_def)
  moreover have "data rb = data ra"
    using get_asset_meta_Inr [OF m] by simp
  moreover have "data rc = data rb" "data_offset meta + 28 \<le> cursor rc"
    using read_string_Inr [OF g] by (simp_all add: skip_def reset_def)
  moreover have "data rd = data rc" "cursor rc \<le> cursor rd"
    using read_string_Inr [OF n] by (simp_all add: skip_def)
  moreover have "data r = data rd" "cursor rd \<le> cursor r"
    using read_int_Inr [OF c] by simp_all
  ultimately show ?thesis using off by simp
qed

lemma read_string_remaining:
  "int (length (data r)) - cursor r < 4 \<Longrightarrow> read_string r = Inl StructError"
  using py_slice_remaining [of "data r" "cursor r"]
  by (simp add: read_string_def read_int_def unpack_i_StructError)

lemma read_string_beyond:
  assumes "read_int r = Inr (n, r')" and "0 \<le> cursor r"
    and "int (length (data r)) - cursor r' < (if n < 0 then - n * 2 else n)"
  shows "read_string r = Inl StructError"
proof -
  define c where "c = (if n < 0 then - n * 2 else n)"
  have c0: "0 \<le> c" by (simp add: c_def)
  from read_int_Inr [OF assms(1)] have r': "r' = r\<lparr>cursor := cursor r + 4\<rparr>" .
  from assms(1) have "length (py_slice (data r) (cursor r) (cursor r + 4)) = 4"
    by (auto simp: read_int_def split: sum.splits dest: unpack_i_Inr)
  with assms(2) have le: "nat (cursor r) + 4 \<le> length (data r)"
    by (simp add: py_slice_nonneg)
  from assms(3) r' have short: "int (length (data r)) - (cursor r + 4) < c"
    by (simp add: c_def)
  have "py_slice (data r) (cursor r + 4) (cursor r + 4 + c) =
      take (nat c) (drop (nat (cursor r + 4)) (data r))"
    using assms(2) c0 by (intro py_slice_nonneg) simp_all
  then have "int (length (py_slice (data r) (cursor r + 4) (cursor r + 4 + c))) \<noteq> c"
    using short le assms(2) c0 by simp
  then show ?thesis
    using assms(1) r' by (cases "n < 0") (simp_all add: read_string_def c_def Let_def)
qed

lemma no_anchor_buffer_no_40: "take 4 (drop k no_anchor_buffer) \<noteq> pack_i 40"
proof
  assume "take 4 (drop k no_anchor_buffer) = pack_i 40"
  then have "0x28 \<in> set (take 4 (drop k no_anchor_buffer))"
    by (simp add: pack_i_def)
  then have "0x28 \<in> set no_anchor_buffer"
    by (meson in_set_takeD in_set_dropD)
  then show False
    by (simp add: no_anchor_buffer_def)
qed

subsection \<open>Packing and unpacking integers\<close>

lemma uint_byte: "uint (word_of_int x :: byte) = x mod 256"
  by (simp add: uint_word_of_int)

lemma bytes_sum:
  assumes "0 \<le> x" "x < 4294967296"
  shows "x mod 256 + 256 * (x div 256 mod 256) + 65536 * (x div 65536 mod 256)
      + 16777216 * (x div 16777216 mod 256) = (x::int)"
proof -
  have d1: "x div 65536 = x div 256 div 256"
    using zdiv_zmult2_eq [of 256 x 256] by simp
  have d2: "x div 16777216 = x div 65536 div 256"
    using zdiv_zmult2_eq [of 256 x 65536] by simp
  have top: "x div 16777216 mod 256 = x div 16777216"
    using assms by (intro mod_pos_pos_trivial) simp_all
  have m: "a mod 256 = a - 256 * (a div 256)" for a :: int
    by (simp add: minus_mult_div_eq_mod)
  show ?thesis
    unfolding top m [of x] m [of "x div 256"] m [of "x div 65536"] d1 [symmetric] d2 [symmetric]
    by simp
qed

lemma shift_div:
  "(x + 4294967296) div 256 = x div 256 + 16777216"
  "(x + 4294967296) div 65536 = x div 65536 + 65536"
  "(x + 4294967296) div 16777216 = x div 16777216 + (256::int)"
  by simp_all

lemma byte_shift:
  assumes "n mod 256 = 0"
  shows "(word_of_int (a + n) :: byte) = word_of_int a"
proof -
  have "(a + n) mod 256 = a mod 256"
    using assms by (metis add.right_neutral mod_add_right_eq)
  then show ?thesis
    by (simp only: word_eq_iff_unsigned [where ?'a = int] uint_byte)
qed

lemma pack_i_shift: "pack_i (x + 4294967296) = pack_i x"
proof -
  have b: "(word_of_int (a + 4294967296) :: byte) = word_of_int a"
    "(word_of_int (a + 16777216) :: byte) = word_of_int a"
    "(word_of_int (a + 65536) :: byte) = word_of_int a"
    "(word_of_int (a + 256) :: byte) = word_of_int a" for a
    by (rule byte_shift, simp)+
  show ?thesis
    unfolding pack_i_def shift_div b ..
qed

lemma le_value_pack:
  "0 \<le> x \<Longrightarrow> x < 4294967296 \<Longrightarrow>
   le_value (word_of_int x) (word_of_int (x div 256)) (word_of_int (x div 65536))
     (word_of_int (x div 16777216)) = x"
  unfolding le_value_def uint_byte by (rule bytes_sum)


lemma unpack_i_pack_unsigned:
  "0 \<le> u \<Longrightarrow> u < 4294967296 \<Longrightarrow>
   unpack_i (pack_i u) = Inr (if 2147483648 \<le> u then u - 4294967296 else u)"
  by (simp add: pack_i_def le_value_pack Let_def)

lemma unpack_i_pack:
  assumes "- 2147483648 \<le> x" "x < 2147483648"
  shows "unpack_i (pack_i x) = Inr x"
proof (cases "0 \<le> x")
  case True
  with assms show ?thesis
    by (simp add: unpack_i_pack_unsigned)
next
  case False
  define u where "u = x + 4294967296"
  from False assms have u: "0 \<le> u" "u < 4294967296" "2147483648 \<le> u"
    by (simp_all add: u_def)
  have "pack_i u = pack_i x"
    unfolding u_def by (rule pack_i_shift)
  with unpack_i_pack_unsigned [OF u(1,2)] u(3) show ?thesis
    by (simp add: u_def)
qed

subsection \<open>Reading what was encoded\<close>

lemma read_int_at:
  assumes "0 \<le> cursor r" and "drop (nat (cursor r)) (data r) = pack_i x @ rest"
    and "- 2147483648 \<le> x" and "x < 2147483648"
  shows "read_int r = Inr (x, r\<lparr>cursor := cursor r + 4\<rparr>)"
proof -
  have "py_slice (data r) (cursor r) (cursor r + 4) = pack_i x"
    using assms(1,2) py_slice_nonneg [of "cursor r" 4 "data r"] by simp
  with assms(3,4) show ?thesis
    by (simp add: read_int_def unpack_i_pack)
qed


lemma drop_after:
  assumes "0 \<le> c" and "drop (nat c) xs = a @ rest"
  shows "drop (nat (c + int (length a))) xs = rest"
proof -
  have "drop (nat (c + int (length a))) xs = drop (length a) (drop (nat c) xs)"
    using assms(1) by (simp add: nat_add_distrib add.commute)
  with assms(2) show ?thesis by simp
qed

lemma py_slice_at:
  assumes "0 \<le> c" and "drop (nat c) xs = a @ rest"
  shows "py_slice xs c (c + int (length a)) = a"
  using assms py_slice_nonneg [of c "int (length a)" xs] by simp

lemma uint_ascii: "0 \<le> c \<Longrightarrow> c < 128 \<Longrightarrow> uint (word_of_int c :: byte) = c"
  by (simp add: uint_byte)

lemma decode_ascii_encode:
  assumes "is_ascii s"
  shows "decode_ascii (map word_of_int s @ [0]) = Inr (s @ [0])"
proof -
  from assms have a: "\<forall>c\<in>set s. uint (word_of_int c :: byte) = c \<and> c < 128"
    by (auto simp: is_ascii_def list_all_iff uint_ascii)
  then have "map uint (map word_of_int s :: byte list) = s"
    by (simp add: map_idI)
  moreover from a have "list_all (\<lambda>b. uint b < 128) (map word_of_int s :: byte list)"
    by (simp add: list_all_iff)
  ultimately show ?thesis
    by (simp add: decode_ascii_def)
qed

lemma read_string_ascii_at:
  assumes "ascii_text s" and "0 \<le> cursor r"
    and "drop (nat (cursor r)) (data r) = encode_ascii s @ post"
  shows "read_string r = Inr (s, r\<lparr>cursor := cursor r + 4 + (int (length s) + 1)\<rparr>)"
proof -
  let ?n = "int (length s) + 1"
  let ?body = "map word_of_int s @ [0] :: byte list"
  from assms(1) have asc: "is_ascii s" and len: "?n < 2147483648"
    by (simp_all add: ascii_text_def)
  from assms(3) have d: "drop (nat (cursor r)) (data r) = pack_i ?n @ (?body @ post)"
    by (simp add: encode_ascii_def)
  have ri: "read_int r = Inr (?n, r\<lparr>cursor := cursor r + 4\<rparr>)"
    using read_int_at [OF assms(2) d] len by simp
  have "drop (nat (cursor r + 4)) (data r) = ?body @ post"
    using drop_after [OF assms(2) d] by simp
  then have "py_slice (data r) (cursor r + 4) (cursor r + 4 + int (length ?body)) = ?body"
    using assms(2) by (intro py_slice_at) simp_all
  then have sl: "py_slice (data r) (cursor r + 4) (cursor r + 4 + ?n) = ?body"
    by simp
  show ?thesis
    using ri sl decode_ascii_encode [OF asc]
    by (simp add: read_string_def Let_def)
qed


lemma unit_bytes_value:
  assumes "0 \<le> u" and "u < 65536"
  shows "uint (word_of_int u :: byte) + 256 * uint (word_of_int (u div 256) :: byte) = u"
proof -
  have "u div 256 mod 256 = u div 256"
    using assms by (intro mod_pos_pos_trivial) simp_all
  then show ?thesis
    by (simp add: uint_byte)
qed

lemma units_le_units_bytes:
  "list_all (\<lambda>u. 0 \<le> u \<and> u < 65536) us \<Longrightarrow> units_le (units_bytes us) = us"
  by (induction us) (simp_all add: unit_bytes_value)

lemma length_units_bytes [simp]: "length (units_bytes us) = 2 * length us"
  by (induction us) simp_all

lemma surrogates_range:
  assumes "scalar_value c" and "\<not> c < 0x10000"
  shows "0xD800 \<le> 0xD800 + (c - 0x10000) div 0x400"
    and "0xD800 + (c - 0x10000) div 0x400 \<le> 0xDBFF"
    and "0xDC00 \<le> 0xDC00 + (c - 0x10000) mod 0x400"
    and "0xDC00 + (c - 0x10000) mod 0x400 \<le> 0xDFFF"
  using assms by (simp_all add: scalar_value_def)

lemma surrogates_value:
  "0x10000 + (0xD800 + (c - 0x10000) div 0x400 - 0xD800) * 0x400
     + (0xDC00 + (c - 0x10000) mod 0x400 - 0xDC00) = (c::int)"
  by simp

lemma utf16_units_range:
  "list_all scalar_value s \<Longrightarrow> list_all (\<lambda>u. 0 \<le> u \<and> u < 65536) (utf16_units s)"
proof (induction s)
  case Nil
  then show ?case by simp
next
  case (Cons c cs)
  then have sc: "scalar_value c" and IH: "list_all (\<lambda>u. 0 \<le> u \<and> u < 65536) (utf16_units cs)"
    by simp_all
  show ?case
  proof (cases "c < 0x10000")
    case True
    with sc IH show ?thesis by (simp add: scalar_value_def)
  next
    case False
    from surrogates_range [OF sc False] IH False show ?thesis by simp
  qed
qed

lemma decode_units_encode:
  "list_all scalar_value s \<Longrightarrow> decode_units us = Inr cs \<Longrightarrow>
   decode_units (utf16_units s @ us) = Inr (s @ cs)"
proof (induction s)
  case Nil
  then show ?case by simp
next
  case (Cons c s)
  then have sc: "scalar_value c" and IH: "decode_units (utf16_units s @ us) = Inr (s @ cs)"
    by simp_all
  show ?case
  proof (cases "c < 0x10000")
    case True
    with sc have "c < 0xD800 \<or> 0xDFFF < c"
      by (auto simp: scalar_value_def)
    with True IH show ?thesis by simp
  next
    case False
    note r = surrogates_range [OF sc False]
    have hi: "\<not> (0xD800 + (c - 0x10000) div 0x400 < 0xD800 \<or> 0xDFFF < 0xD800 + (c - 0x10000) div 0x400)"
      using r(1,2) by linarith
    show ?thesis
      using False IH hi r(2,3,4) surrogates_value [of c]
      by (simp del: add_diff_cancel_left')
  qed
qed


lemma first_unit:
  assumes "list_all scalar_value s" and "\<not> bom_led s"
  shows "\<exists>u us. utf16_units s @ [0] = u # us \<and> 0 \<le> u \<and> u < 65536
    \<and> u \<noteq> 0xFEFF \<and> u \<noteq> 0xFFFE"
proof (cases s)
  case Nil
  then show ?thesis by simp
next
  case (Cons c cs)
  with assms have sc: "scalar_value c" and nb: "c \<noteq> 0xFEFF" "c \<noteq> 0xFFFE"
    by simp_all
  show ?thesis
  proof (cases "c < 0x10000")
    case True
    with sc nb Cons show ?thesis by (simp add: scalar_value_def)
  next
    case False
    from surrogates_range [OF sc False] False Cons show ?thesis by simp
  qed
qed

lemma no_bom:
  assumes "0 \<le> u" and "u < 65536" and "u \<noteq> 0xFEFF" and "u \<noteq> 0xFFFE"
  shows "take 2 (units_bytes (u # us)) \<noteq> [0xFF, 0xFE]"
    and "take 2 (units_bytes (u # us)) \<noteq> [0xFE, 0xFF]"
proof -
  have v: "uint (word_of_int u :: byte) + 256 * uint (word_of_int (u div 256) :: byte) = u"
    using assms(1,2) by (rule unit_bytes_value)
  show "take 2 (units_bytes (u # us)) \<noteq> [0xFF, 0xFE]"
  proof
    assume "take 2 (units_bytes (u # us)) = [0xFF, 0xFE]"
    then have "(word_of_int u :: byte) = 0xFF" "(word_of_int (u div 256) :: byte) = 0xFE"
      by simp_all
    with v have "u = 0xFEFF" by simp
    with assms(3) show False by simp
  qed
  show "take 2 (units_bytes (u # us)) \<noteq> [0xFE, 0xFF]"
  proof
    assume "take 2 (units_bytes (u # us)) = [0xFE, 0xFF]"
    then have "(word_of_int u :: byte) = 0xFE" "(word_of_int (u div 256) :: byte) = 0xFF"
      by simp_all
    with v have "u = 0xFFFE" by simp
    with assms(4) show False by simp
  qed
qed

lemma decode_utf16_encode:
  assumes "list_all scalar_value s" and "\<not> bom_led s"
  shows "decode_utf16 (units_bytes (utf16_units s @ [0])) = Inr (s @ [0])"
proof -
  from first_unit [OF assms] obtain u us where
    u: "utf16_units s @ [0] = u # us" "0 \<le> u" "u < 65536" "u \<noteq> 0xFEFF" "u \<noteq> 0xFFFE"
    by blast
  have nb: "take 2 (units_bytes (utf16_units s @ [0])) \<noteq> [0xFF, 0xFE]"
    "take 2 (units_bytes (utf16_units s @ [0])) \<noteq> [0xFE, 0xFF]"
    unfolding u(1) using no_bom [OF u(2-5)] by blast+
  have "list_all (\<lambda>u. 0 \<le> u \<and> u < 65536) (utf16_units s @ [0])"
    using utf16_units_range [OF assms(1)] by simp
  then have le: "units_le (units_bytes (utf16_units s @ [0])) = utf16_units s @ [0]"
    by (rule units_le_units_bytes)
  have "decode_units (utf16_units s @ [0]) = Inr (s @ [0])"
    using assms(1) by (rule decode_units_encode) simp
  with nb le show ?thesis
    by (simp add: decode_utf16_def)
qed

lemma read_string_utf16_at:
  assumes "utf16_text s" and "\<not> bom_led s" and "0 \<le> cursor r"
    and "drop (nat (cursor r)) (data r) = encode_utf16 s @ post"
  shows "read_string r =
    Inr (s, r\<lparr>cursor := cursor r + 4 + 2 * (int (length (utf16_units s)) + 1)\<rparr>)"
proof -
  let ?n = "int (length (utf16_units s)) + 1"
  let ?body = "units_bytes (utf16_units s @ [0])"
  from assms(1) have sc: "list_all scalar_value s" and len: "?n \<le> 2147483648"
    by (simp_all add: utf16_text_def)
  have h: "- int (length (utf16_units s @ [0])) = - ?n"
    by simp
  have enc: "encode_utf16 s = pack_i (- ?n) @ ?body"
    unfolding encode_utf16_def Let_def h ..
  from assms(4) have d: "drop (nat (cursor r)) (data r) = pack_i (- ?n) @ (?body @ post)"
    unfolding enc by (simp only: append_assoc)
  have ri: "read_int r = Inr (- ?n, r\<lparr>cursor := cursor r + 4\<rparr>)"
    using read_int_at [OF assms(3) d] len by simp
  have "drop (nat (cursor r + 4)) (data r) = ?body @ post"
    using drop_after [OF assms(3) d] by simp
  then have "py_slice (data r) (cursor r + 4) (cursor r + 4 + int (length ?body)) = ?body"
    using assms(3) by (intro py_slice_at) simp_all
  then have sl: "py_slice (data r) (cursor r + 4) (cursor r + 4 + ?n * 2) = ?body"
    by (simp add: mult.commute)
  have neg: "- ?n < 0" by simp
  show ?thesis
    using ri sl decode_utf16_encode [OF sc assms(2)] neg
    by (simp add: read_string_def Let_def del: length_units_bytes) (simp add: mult.commute)
qed












lemma drop_pack_i [simp]:
  "drop 4 (pack_i x @ ys) = ys"
  "4 \<le> n \<Longrightarrow> drop n (pack_i x @ ys) = drop (n - 4) ys"
  by simp_all

section \<open>The claims\<close>

text \<open>
  C6. \<^verbatim>\<open>validate\<close> on a fresh reader: when the first four bytes, read as an unsigned
  little-endian integer, are not \<open>0x9E2A83C1\<close>, validation raises
  \<^verbatim>\<open>ValueError("Not a valid .uasset file")\<close>, and both entry points fail with that
  error whatever the rest of the buffer holds (nothing after the magic number is
  read). When they are the magic number, validation succeeds and leaves the cursor
  at 0.
\<close>

theorem validate_magic:
  "(le_value b0 b1 b2 b3 \<noteq> 0x9E2A83C1 \<longrightarrow>
      validate (new_reader (b0 # b1 # b2 # b3 # rest)) = Inl NotValidUasset
      \<and> parse_meta (b0 # b1 # b2 # b3 # rest) = Inl (AssetParseException NotValidUasset)
      \<and> parse_string_table (b0 # b1 # b2 # b3 # rest) = Inl (AssetParseException NotValidUasset))
   \<and> (le_value b0 b1 b2 b3 = 0x9E2A83C1 \<longrightarrow>
      validate (new_reader (b0 # b1 # b2 # b3 # rest)) =
        Inr ((), \<lparr>data = b0 # b1 # b2 # b3 # rest, cursor = 0\<rparr>))"
  by (simp add: validate_def read_uint_new_reader reset_def parse_meta_def
      parse_string_table_def read_table_head_def)

theorem validate_magic_witness:
  "le_value 0xC0 0x83 0x2A 0x9E \<noteq> 0x9E2A83C1
   \<and> validate (new_reader [0xC0, 0x83, 0x2A, 0x9E, 7]) = Inl NotValidUasset
   \<and> parse_meta [0xC0, 0x83, 0x2A, 0x9E, 7] = Inl (AssetParseException NotValidUasset)
   \<and> parse_string_table [0xC0, 0x83, 0x2A, 0x9E, 7] = Inl (AssetParseException NotValidUasset)
   \<and> le_value 0xC1 0x83 0x2A 0x9E = 0x9E2A83C1
   \<and> validate (new_reader [0xC1, 0x83, 0x2A, 0x9E, 7]) =
        Inr ((), \<lparr>data = [0xC1, 0x83, 0x2A, 0x9E, 7], cursor = 0\<rparr>)"
  using validate_magic [of "0xC0" "0x83" "0x2A" "0x9E" "[7]"]
    validate_magic [of "0xC1" "0x83" "0x2A" "0x9E" "[7]"]
  by (simp add: le_value_def)

text \<open>
  C10. When the length prefix of a string reads as 0, \<^verbatim>\<open>read_string\<close> raises
  "String not null terminated": the empty slice decodes to the empty string, which
  does not end with a NUL.
\<close>

theorem zero_length_string:
  "read_int r = Inr (0, r') \<Longrightarrow> read_string r = Inl StringNotNullTerminated"
  by (simp add: read_string_def py_slice_def decode_ascii_def)

theorem zero_length_string_witness:
  "read_int (new_reader [0, 0, 0, 0, 0]) = Inr (0, \<lparr>data = [0, 0, 0, 0, 0], cursor = 4\<rparr>)
   \<and> read_string (new_reader [0, 0, 0, 0, 0]) = Inl StringNotNullTerminated"
proof -
  have h: "read_int (new_reader [0, 0, 0, 0, 0]) = Inr (0, \<lparr>data = [0, 0, 0, 0, 0], cursor = 4\<rparr>)"
    by code_simp
  from h zero_length_string [OF h] show ?thesis by simp
qed

text \<open>
  C9. When \<^verbatim>\<open>get_asset_meta\<close> returns, the cursor is 0; and no method of the reader
  changes the bytes: after \<^verbatim>\<open>validate\<close>, \<^verbatim>\<open>get_asset_meta\<close>, \<^verbatim>\<open>read_int\<close>,
  \<^verbatim>\<open>read_uint\<close>, \<^verbatim>\<open>read_string\<close>, \<^verbatim>\<open>skip\<close> and \<^verbatim>\<open>reset\<close> the reader holds the
  data it held before. (\<^verbatim>\<open>find_int\<close> returns an integer and leaves the reader as it
  is: in the model it returns no reader at all.)
\<close>

theorem reader_frame:
  "(get_asset_meta r = Inr (m, r') \<longrightarrow> cursor r' = 0 \<and> data r' = data r)
   \<and> (validate r = Inr (u, r') \<longrightarrow> data r' = data r)
   \<and> (read_int r = Inr (i, r') \<longrightarrow> data r' = data r)
   \<and> (read_uint r = Inr (i, r') \<longrightarrow> data r' = data r)
   \<and> (read_string r = Inr (s, r') \<longrightarrow> data r' = data r)
   \<and> data (skip r n) = data r
   \<and> data (reset r n) = data r"
  using get_asset_meta_Inr [of r m r'] validate_Inr [of r u r'] read_int_Inr [of r i r']
    read_uint_Inr [of r i r'] read_string_Inr [of r s r']
  by (auto simp: skip_def reset_def)

theorem reader_frame_witness:
  "get_asset_meta (new_reader example_header) =
     Inr (\<lparr>file_version = 1, license_version = 0, ue_version = 0, cook_version = 5,
           asset_type = 1, data_offset = 76, path = [47, 71, 97, 109, 101, 47, 88],
           asset_guid = [65, 66, 67]\<rparr>, \<lparr>data = example_header, cursor = 0\<rparr>)
   \<and> cursor \<lparr>data = example_header, cursor = 0\<rparr> = 0
   \<and> data \<lparr>data = example_header, cursor = 0\<rparr> = data (new_reader example_header)"
proof -
  have h: "get_asset_meta (new_reader example_header) =
     Inr (\<lparr>file_version = 1, license_version = 0, ue_version = 0, cook_version = 5,
           asset_type = 1, data_offset = 76, path = [47, 71, 97, 109, 101, 47, 88],
           asset_guid = [65, 66, 67]\<rparr>, \<lparr>data = example_header, cursor = 0\<rparr>)"
    by code_simp
  from h reader_frame [of "new_reader example_header" _ "\<lparr>data = example_header, cursor = 0\<rparr>"]
  show ?thesis by simp
qed

text \<open>
  C4. A string-table buffer (magic number valid, header resolved, asset type 1) whose
  GUID string in the payload, read at \<open>data_offset + 28\<close>, differs from the GUID of
  the header: \<^verbatim>\<open>parse_string_table\<close> raises "Asset code mismatch" and returns no
  entries. The comparison comes before the table name, the count and the entries are
  read: the result does not depend on them.
\<close>

theorem guid_mismatch:
  assumes "validate (new_reader d) = Inr (u, r0)"
    and "get_asset_meta r0 = Inr (meta, r1)"
    and "asset_type meta = 1"
    and "read_string (skip (reset r1 (data_offset meta)) 28) = Inr (g, r2)"
    and "g \<noteq> asset_guid meta"
  shows "read_table_head d = Inl AssetCodeMismatch
    \<and> parse_string_table d = Inl (AssetParseException AssetCodeMismatch)"
  using assms by (simp add: parse_string_table_def read_table_head_def)

theorem guid_mismatch_witness:
  "validate (new_reader mismatched_table) = Inr ((), \<lparr>data = mismatched_table, cursor = 0\<rparr>)
   \<and> get_asset_meta \<lparr>data = mismatched_table, cursor = 0\<rparr> =
       Inr (example_meta, \<lparr>data = mismatched_table, cursor = 0\<rparr>)
   \<and> asset_type example_meta = 1
   \<and> read_string (skip (reset \<lparr>data = mismatched_table, cursor = 0\<rparr> (data_offset example_meta)) 28) =
       Inr ([65, 66, 68], \<lparr>data = mismatched_table, cursor = 112\<rparr>)
   \<and> [65, 66, 68] \<noteq> asset_guid example_meta
   \<and> read_table_head mismatched_table = Inl AssetCodeMismatch
   \<and> parse_string_table mismatched_table = Inl (AssetParseException AssetCodeMismatch)"
proof -
  have h1: "validate (new_reader mismatched_table) = Inr ((), \<lparr>data = mismatched_table, cursor = 0\<rparr>)"
    by code_simp
  have h2: "get_asset_meta \<lparr>data = mismatched_table, cursor = 0\<rparr> =
       Inr (example_meta, \<lparr>data = mismatched_table, cursor = 0\<rparr>)"
    by code_simp
  have h3: "asset_type example_meta = 1"
    by (simp add: example_meta_def)
  have h4: "read_string (skip (reset \<lparr>data = mismatched_table, cursor = 0\<rparr> (data_offset example_meta)) 28) =
       Inr ([65, 66, 68], \<lparr>data = mismatched_table, cursor = 112\<rparr>)"
    by code_simp
  have h5: "[65, 66, 68] \<noteq> asset_guid example_meta"
    by (simp add: example_meta_def)
  from h1 h2 h3 h4 h5 guid_mismatch [OF h1 h2 h3 h4 h5] show ?thesis by blast
qed



text \<open>
  C5, as stated, fails: a buffer with no occurrence of the integer 40 on which
  \<^verbatim>\<open>parse_meta\<close> succeeds. The search returns \<open>-1\<close>, the cursor is set to 3, and the
  data offset, the path and the GUID are read from the bytes of the file version and
  of the fields after it.
\<close>

theorem anchor_not_found_counterexample:
  "find_int \<lparr>data = no_anchor_buffer, cursor = 28\<rparr> 40 = - 1
   \<and> parse_meta no_anchor_buffer =
       Inr no_anchor_meta"
  by code_simp

text \<open>
  C5, as amended. When the search for the integer 40 finds no match, \<^verbatim>\<open>find_int\<close>
  returns \<open>-1\<close>, and the header resolver raises nothing on that account: it sets the
  cursor to \<open>-1 + 4 = 3\<close> and goes on. With the fields before the anchor read and
  the search from the cursor after the asset type returning \<open>-1\<close>, the result of
  \<^verbatim>\<open>get_asset_meta\<close> is the result of the rest of its body run from offset 3: the
  data offset is read at offset 3 and the path at offset 7, an error is the error of
  one of the four reads that are left, and when those four reads succeed the resolver
  succeeds, with the values they return.
\<close>

theorem anchor_not_found:
  "(0 \<le> cursor r \<and> (\<forall>k\<ge>nat (cursor r). take 4 (drop k (data r)) \<noteq> pack_i 40)
      \<longrightarrow> find_int r 40 = - 1)
   \<and> (read_int (skip r0 4) = Inr (fv, r1) \<and> read_uint r1 = Inr (lic, r2)
        \<and> read_uint r2 = Inr (ue, r3) \<and> read_uint r3 = Inr (cook, r4)
        \<and> read_uint (skip (if cook = 0 \<and> fv \<noteq> - 8 then skip r4 (- 4) else r4) 4)
            = Inr (aty, r5)
        \<and> find_int r5 40 = - 1
      \<longrightarrow> cursor (reset r5 (find_int r5 40 + 4)) = 3
        \<and> get_asset_meta r0 =
            andthen (read_uint (reset r5 3)) (\<lambda>data_offset r.
            andthen (read_string r) (\<lambda>path r.
            andthen (read_int (skip r 12)) (\<lambda>v r.
            andthen (read_string (if v = 0 then skip r 4 else skip r (- 4))) (\<lambda>asset_guid r.
            Inr (\<lparr>file_version = fv, license_version = lic, ue_version = ue,
                  cook_version = cook, asset_type = aty, data_offset = data_offset,
                  path = path, asset_guid = asset_guid\<rparr>, reset r 0)))))
        \<and> (read_uint (reset r5 3) = Inr (off, r6) \<and> read_string r6 = Inr (p, r7)
            \<and> read_int (skip r7 12) = Inr (v, r8)
            \<and> read_string (if v = 0 then skip r8 4 else skip r8 (- 4)) = Inr (g, r9)
          \<longrightarrow> cursor r6 = 7
            \<and> get_asset_meta r0 =
                Inr (\<lparr>file_version = fv, license_version = lic, ue_version = ue,
                      cook_version = cook, asset_type = aty, data_offset = off,
                      path = p, asset_guid = g\<rparr>, reset r9 0)))"
proof (rule conjI [OF impI impI])
  assume "0 \<le> cursor r \<and> (\<forall>k\<ge>nat (cursor r). take 4 (drop k (data r)) \<noteq> pack_i 40)"
  then show "find_int r 40 = - 1"
    using find_int_none [of r 40] by blast
next
  assume h: "read_int (skip r0 4) = Inr (fv, r1) \<and> read_uint r1 = Inr (lic, r2)
        \<and> read_uint r2 = Inr (ue, r3) \<and> read_uint r3 = Inr (cook, r4)
        \<and> read_uint (skip (if cook = 0 \<and> fv \<noteq> - 8 then skip r4 (- 4) else r4) 4)
            = Inr (aty, r5)
        \<and> find_int r5 40 = - 1"
  then have s: "read_int (skip r0 4) = Inr (fv, r1)" "read_uint r1 = Inr (lic, r2)"
      "read_uint r2 = Inr (ue, r3)" "read_uint r3 = Inr (cook, r4)"
      "read_uint (skip (if cook = 0 \<and> fv \<noteq> - 8 then skip r4 (- 4) else r4) 4) = Inr (aty, r5)"
    and f: "find_int r5 40 = - 1"
    by blast+
  have c3: "cursor (reset r5 (find_int r5 40 + 4)) = 3"
    by (simp add: f reset_def)
  have eq: "get_asset_meta r0 =
            andthen (read_uint (reset r5 3)) (\<lambda>data_offset r.
            andthen (read_string r) (\<lambda>path r.
            andthen (read_int (skip r 12)) (\<lambda>v r.
            andthen (read_string (if v = 0 then skip r 4 else skip r (- 4))) (\<lambda>asset_guid r.
            Inr (\<lparr>file_version = fv, license_version = lic, ue_version = ue,
                  cook_version = cook, asset_type = aty, data_offset = data_offset,
                  path = path, asset_guid = asset_guid\<rparr>, reset r 0)))))"
    unfolding get_asset_meta_def Let_def using s f by simp
  have rest: "cursor r6 = 7
            \<and> get_asset_meta r0 =
                Inr (\<lparr>file_version = fv, license_version = lic, ue_version = ue,
                      cook_version = cook, asset_type = aty, data_offset = off,
                      path = p, asset_guid = g\<rparr>, reset r9 0)"
    if t: "read_uint (reset r5 3) = Inr (off, r6) \<and> read_string r6 = Inr (p, r7)
            \<and> read_int (skip r7 12) = Inr (v, r8)
            \<and> read_string (if v = 0 then skip r8 4 else skip r8 (- 4)) = Inr (g, r9)"
  proof -
    from t have t1: "read_uint (reset r5 3) = Inr (off, r6)" and t2: "read_string r6 = Inr (p, r7)"
      and t3: "read_int (skip r7 12) = Inr (v, r8)"
      and t4: "read_string (if v = 0 then skip r8 4 else skip r8 (- 4)) = Inr (g, r9)"
      by blast+
    from read_uint_Inr [OF t1] have "cursor r6 = 7"
      by (simp add: reset_def)
    moreover have "get_asset_meta r0 =
                Inr (\<lparr>file_version = fv, license_version = lic, ue_version = ue,
                      cook_version = cook, asset_type = aty, data_offset = off,
                      path = p, asset_guid = g\<rparr>, reset r9 0)"
      unfolding eq using t1 t2 t3 t4 by simp
    ultimately show ?thesis ..
  qed
  from c3 eq rest
  show "cursor (reset r5 (find_int r5 40 + 4)) = 3
        \<and> get_asset_meta r0 =
            andthen (read_uint (reset r5 3)) (\<lambda>data_offset r.
            andthen (read_string r) (\<lambda>path r.
            andthen (read_int (skip r 12)) (\<lambda>v r.
            andthen (read_string (if v = 0 then skip r 4 else skip r (- 4))) (\<lambda>asset_guid r.
            Inr (\<lparr>file_version = fv, license_version = lic, ue_version = ue,
                  cook_version = cook, asset_type = aty, data_offset = data_offset,
                  path = path, asset_guid = asset_guid\<rparr>, reset r 0)))))
        \<and> (read_uint (reset r5 3) = Inr (off, r6) \<and> read_string r6 = Inr (p, r7)
            \<and> read_int (skip r7 12) = Inr (v, r8)
            \<and> read_string (if v = 0 then skip r8 4 else skip r8 (- 4)) = Inr (g, r9)
          \<longrightarrow> cursor r6 = 7
            \<and> get_asset_meta r0 =
                Inr (\<lparr>file_version = fv, license_version = lic, ue_version = ue,
                      cook_version = cook, asset_type = aty, data_offset = off,
                      path = p, asset_guid = g\<rparr>, reset r9 0))"
    by blast
qed

theorem anchor_not_found_witness:
  "find_int (new_reader no_anchor_buffer) 40 = - 1
   \<and> read_int (skip (new_reader no_anchor_buffer) 4) = Inr (16777216, \<lparr>data = no_anchor_buffer, cursor = 8\<rparr>)
   \<and> read_uint \<lparr>data = no_anchor_buffer, cursor = 8\<rparr> = Inr (0, \<lparr>data = no_anchor_buffer, cursor = 12\<rparr>)
   \<and> read_uint \<lparr>data = no_anchor_buffer, cursor = 12\<rparr> = Inr (0, \<lparr>data = no_anchor_buffer, cursor = 16\<rparr>)
   \<and> read_uint \<lparr>data = no_anchor_buffer, cursor = 16\<rparr> = Inr (5, \<lparr>data = no_anchor_buffer, cursor = 20\<rparr>)
   \<and> read_uint (skip (if (5::int) = 0 \<and> (16777216::int) \<noteq> - 8 then skip \<lparr>data = no_anchor_buffer, cursor = 20\<rparr> (- 4) else \<lparr>data = no_anchor_buffer, cursor = 20\<rparr>) 4)
        = Inr (1, \<lparr>data = no_anchor_buffer, cursor = 28\<rparr>)
   \<and> find_int \<lparr>data = no_anchor_buffer, cursor = 28\<rparr> 40 = - 1
   \<and> read_uint (reset \<lparr>data = no_anchor_buffer, cursor = 28\<rparr> 3) = Inr (158, \<lparr>data = no_anchor_buffer, cursor = 7\<rparr>)
   \<and> read_string \<lparr>data = no_anchor_buffer, cursor = 7\<rparr> = Inr ([], \<lparr>data = no_anchor_buffer, cursor = 12\<rparr>)
   \<and> read_int (skip \<lparr>data = no_anchor_buffer, cursor = 12\<rparr> 12) = Inr (1, \<lparr>data = no_anchor_buffer, cursor = 28\<rparr>)
   \<and> read_string (if (1::int) = 0 then skip \<lparr>data = no_anchor_buffer, cursor = 28\<rparr> 4 else skip \<lparr>data = no_anchor_buffer, cursor = 28\<rparr> (- 4)) = Inr ([], \<lparr>data = no_anchor_buffer, cursor = 29\<rparr>)
   \<and> get_asset_meta (new_reader no_anchor_buffer) = Inr (no_anchor_meta, reset \<lparr>data = no_anchor_buffer, cursor = 29\<rparr> 0)"
proof -
  have a: "0 \<le> cursor (new_reader no_anchor_buffer)
    \<and> (\<forall>k\<ge>nat (cursor (new_reader no_anchor_buffer)).
          take 4 (drop k (data (new_reader no_anchor_buffer))) \<noteq> pack_i 40)"
    by (simp add: new_reader_def no_anchor_buffer_no_40)
  have h1: "read_int (skip (new_reader no_anchor_buffer) 4) = Inr (16777216, \<lparr>data = no_anchor_buffer, cursor = 8\<rparr>)"
    by code_simp
  have h2: "read_uint \<lparr>data = no_anchor_buffer, cursor = 8\<rparr> = Inr (0, \<lparr>data = no_anchor_buffer, cursor = 12\<rparr>)"
    by code_simp
  have h3: "read_uint \<lparr>data = no_anchor_buffer, cursor = 12\<rparr> = Inr (0, \<lparr>data = no_anchor_buffer, cursor = 16\<rparr>)"
    by code_simp
  have h4: "read_uint \<lparr>data = no_anchor_buffer, cursor = 16\<rparr> = Inr (5, \<lparr>data = no_anchor_buffer, cursor = 20\<rparr>)"
    by code_simp
  have h5: "read_uint (skip (if (5::int) = 0 \<and> (16777216::int) \<noteq> - 8 then skip \<lparr>data = no_anchor_buffer, cursor = 20\<rparr> (- 4) else \<lparr>data = no_anchor_buffer, cursor = 20\<rparr>) 4)
        = Inr (1, \<lparr>data = no_anchor_buffer, cursor = 28\<rparr>)"
    by code_simp
  have f: "find_int \<lparr>data = no_anchor_buffer, cursor = 28\<rparr> 40 = - 1"
    by code_simp
  have t1: "read_uint (reset \<lparr>data = no_anchor_buffer, cursor = 28\<rparr> 3) = Inr (158, \<lparr>data = no_anchor_buffer, cursor = 7\<rparr>)"
    by code_simp
  have t2: "read_string \<lparr>data = no_anchor_buffer, cursor = 7\<rparr> = Inr ([], \<lparr>data = no_anchor_buffer, cursor = 12\<rparr>)"
    by code_simp
  have t3: "read_int (skip \<lparr>data = no_anchor_buffer, cursor = 12\<rparr> 12) = Inr (1, \<lparr>data = no_anchor_buffer, cursor = 28\<rparr>)"
    by code_simp
  have t4: "read_string (if (1::int) = 0 then skip \<lparr>data = no_anchor_buffer, cursor = 28\<rparr> 4 else skip \<lparr>data = no_anchor_buffer, cursor = 28\<rparr> (- 4)) = Inr ([], \<lparr>data = no_anchor_buffer, cursor = 29\<rparr>)"
    by code_simp
  note t = anchor_not_found [where r = "new_reader no_anchor_buffer"
      and ?r0.0 = "new_reader no_anchor_buffer" and fv = 16777216 and ?r1.0 = "\<lparr>data = no_anchor_buffer, cursor = 8\<rparr>"
      and lic = 0 and ?r2.0 = "\<lparr>data = no_anchor_buffer, cursor = 12\<rparr>" and ue = 0 and ?r3.0 = "\<lparr>data = no_anchor_buffer, cursor = 16\<rparr>" and cook = 5
      and ?r4.0 = "\<lparr>data = no_anchor_buffer, cursor = 20\<rparr>" and aty = 1 and ?r5.0 = "\<lparr>data = no_anchor_buffer, cursor = 28\<rparr>" and off = 158 and ?r6.0 = "\<lparr>data = no_anchor_buffer, cursor = 7\<rparr>"
      and p = "[]" and ?r7.0 = "\<lparr>data = no_anchor_buffer, cursor = 12\<rparr>" and v = 1 and ?r8.0 = "\<lparr>data = no_anchor_buffer, cursor = 28\<rparr>" and g = "[]"
      and ?r9.0 = "\<lparr>data = no_anchor_buffer, cursor = 29\<rparr>"]
  from t a have c1: "find_int (new_reader no_anchor_buffer) 40 = - 1"
    by blast
  from t h1 h2 h3 h4 h5 f t1 t2 t3 t4
  have "get_asset_meta (new_reader no_anchor_buffer) =
      Inr (\<lparr>file_version = 16777216, license_version = 0, ue_version = 0,
            cook_version = 5, asset_type = 1, data_offset = 158,
            path = [], asset_guid = []\<rparr>, reset \<lparr>data = no_anchor_buffer, cursor = 29\<rparr> 0)"
    by blast
  then have c2: "get_asset_meta (new_reader no_anchor_buffer) = Inr (no_anchor_meta, reset \<lparr>data = no_anchor_buffer, cursor = 29\<rparr> 0)"
    by (simp add: no_anchor_meta_def)
  from c1 h1 h2 h3 h4 h5 f t1 t2 t3 t4 c2 show ?thesis
    by blast
qed

text \<open>
  C8, as stated, fails in its second part: a string table that declares three entries
  and holds two well-formed pairs followed by four zero bytes. The third key has the
  length prefix 0, and the error is "String not null terminated", which is no bounds
  error: every byte that is read is inside the buffer.
\<close>

theorem third_pair_counterexample:
  "read_table_head zero_padded_table = Inr (3, \<lparr>data = zero_padded_table, cursor = 134\<rparr>)
   \<and> read_entries 2 \<lparr>data = zero_padded_table, cursor = 134\<rparr> [] =
       Inr ([([75, 101, 121, 49], [86, 97, 108, 117, 101, 49]),
             ([75, 101, 121, 49], [86, 97, 108, 117, 101, 49])],
            \<lparr>data = zero_padded_table, cursor = 174\<rparr>)
   \<and> parse_string_table zero_padded_table = Inl (AssetParseException StringNotNullTerminated)"
  by code_simp

text \<open>
  C8, as amended. A read of an integer with fewer than four bytes between the cursor
  and the end of the buffer raises \<^verbatim>\<open>struct.error\<close>, for \<^verbatim>\<open>read_int\<close> and
  \<^verbatim>\<open>read_uint\<close>, wherever the cursor is. A string table that declares three entries
  and whose first two pairs are read never yields a list of two entries: the result of
  \<^verbatim>\<open>parse_string_table\<close> is the error of the read of the third key, else the error
  of the read of the third value, else the list of three entries. That error is
  \<^verbatim>\<open>struct.error\<close> in each of the four cases in which a read of the third pair
  leaves the buffer: fewer than four bytes are left for the length prefix of the key;
  the prefix is read and fewer bytes are left than it declares (\<open>n\<close> bytes for a
  prefix \<open>n\<close>, \<open>2n\<close> bytes for a prefix \<open>-n\<close>); the key is read and the same
  happens for the length prefix of the value, or for its bytes.
\<close>

theorem out_of_bounds_reads:
  "(int (length (data r)) - cursor r < 4
      \<longrightarrow> read_int r = Inl StructError \<and> read_uint r = Inl StructError)
   \<and> (read_table_head d = Inr (3, r0) \<and> read_entries 2 r0 [] = Inr (es, r2)
      \<longrightarrow> length es = 2
        \<and> parse_string_table d \<noteq> Inr es
        \<and> parse_string_table d =
            (case read_string r2 of
               Inl e \<Rightarrow> Inl (AssetParseException e)
             | Inr (k, r3) \<Rightarrow>
                 (case read_string r3 of
                    Inl e \<Rightarrow> Inl (AssetParseException e)
                  | Inr (v, r4) \<Rightarrow> Inr (es @ [(k, v)])))
        \<and> (int (length d) - cursor r2 < 4
            \<longrightarrow> parse_string_table d = Inl (AssetParseException StructError))
        \<and> (read_int r2 = Inr (n, r2')
              \<and> int (length d) - cursor r2' < (if n < 0 then - n * 2 else n)
            \<longrightarrow> parse_string_table d = Inl (AssetParseException StructError))
        \<and> (read_string r2 = Inr (k3, r3) \<and> int (length d) - cursor r3 < 4
            \<longrightarrow> parse_string_table d = Inl (AssetParseException StructError))
        \<and> (read_string r2 = Inr (k3, r3) \<and> read_int r3 = Inr (n', r3')
              \<and> int (length d) - cursor r3' < (if n' < 0 then - n' * 2 else n')
            \<longrightarrow> parse_string_table d = Inl (AssetParseException StructError)))"
proof (rule conjI [OF impI impI])
  assume "int (length (data r)) - cursor r < 4"
  then show "read_int r = Inl StructError \<and> read_uint r = Inl StructError"
    using py_slice_remaining [of "data r" "cursor r"]
    by (simp add: read_int_def read_uint_def unpack_I_StructError unpack_i_StructError)
next
  assume h: "read_table_head d = Inr (3, r0) \<and> read_entries 2 r0 [] = Inr (es, r2)"
  then have hd: "read_table_head d = Inr (3, r0)"
    and two: "read_entries 2 r0 [] = Inr (es, r2)"
    by blast+
  from read_table_head_Inr [OF hd] have d0: "data r0 = d" and c0: "0 \<le> cursor r0"
    by blast+
  from read_entries_Inr [OF two] d0 c0 have d2: "data r2 = d" and c2: "0 \<le> cursor r2"
    by simp_all
  from read_entries_length [OF two] have len: "length es = 2"
    by simp
  from read_entries_append [OF two, of 1] have "read_entries 3 r0 [] = read_entries 1 r2 es"
    by simp
  with hd have p: "parse_string_table d = wrap (read_entries 1 r2 es)"
    by (simp add: parse_string_table_def)
  have eq: "parse_string_table d =
      (case read_string r2 of
         Inl e \<Rightarrow> Inl (AssetParseException e)
       | Inr (k, r3) \<Rightarrow>
           (case read_string r3 of
              Inl e \<Rightarrow> Inl (AssetParseException e)
            | Inr (v, r4) \<Rightarrow> Inr (es @ [(k, v)])))"
    unfolding p by (simp add: andthen_def split: sum.splits prod.splits)
  have ne: "parse_string_table d \<noteq> Inr es"
    unfolding eq by (simp split: sum.splits prod.splits)
  have key: "parse_string_table d = Inl (AssetParseException StructError)"
    if "read_string r2 = Inl StructError"
    unfolding eq using that by simp
  have val: "parse_string_table d = Inl (AssetParseException StructError)"
    if "read_string r2 = Inr (k3, r3)" and "read_string r3 = Inl StructError"
    unfolding eq using that by simp
  have at3: "data r3 = d \<and> 0 \<le> cursor r3" if "read_string r2 = Inr (k3, r3)"
    using read_string_Inr [OF that] d2 c2 by simp
  have s1: "parse_string_table d = Inl (AssetParseException StructError)"
    if "int (length d) - cursor r2 < 4"
    using that d2 by (intro key read_string_remaining) simp
  have s2: "parse_string_table d = Inl (AssetParseException StructError)"
    if "read_int r2 = Inr (n, r2')
      \<and> int (length d) - cursor r2' < (if n < 0 then - n * 2 else n)"
    using that d2 c2 by (intro key read_string_beyond [of r2 n r2']) simp_all
  have s3: "parse_string_table d = Inl (AssetParseException StructError)"
    if "read_string r2 = Inr (k3, r3) \<and> int (length d) - cursor r3 < 4"
  proof -
    from that have k: "read_string r2 = Inr (k3, r3)" and s: "int (length d) - cursor r3 < 4"
      by blast+
    from at3 [OF k] s have "read_string r3 = Inl StructError"
      by (intro read_string_remaining) simp
    with k show ?thesis by (rule val)
  qed
  have s4: "parse_string_table d = Inl (AssetParseException StructError)"
    if "read_string r2 = Inr (k3, r3) \<and> read_int r3 = Inr (n', r3')
      \<and> int (length d) - cursor r3' < (if n' < 0 then - n' * 2 else n')"
  proof -
    from that have k: "read_string r2 = Inr (k3, r3)" and i: "read_int r3 = Inr (n', r3')"
      and s: "int (length d) - cursor r3' < (if n' < 0 then - n' * 2 else n')"
      by blast+
    from at3 [OF k] i s have "read_string r3 = Inl StructError"
      by (intro read_string_beyond [of r3 n' r3']) simp_all
    with k show ?thesis by (rule val)
  qed
  from len ne eq s1 s2 s3 s4
  show "length es = 2
        \<and> parse_string_table d \<noteq> Inr es
        \<and> parse_string_table d =
            (case read_string r2 of
               Inl e \<Rightarrow> Inl (AssetParseException e)
             | Inr (k, r3) \<Rightarrow>
                 (case read_string r3 of
                    Inl e \<Rightarrow> Inl (AssetParseException e)
                  | Inr (v, r4) \<Rightarrow> Inr (es @ [(k, v)])))
        \<and> (int (length d) - cursor r2 < 4
            \<longrightarrow> parse_string_table d = Inl (AssetParseException StructError))
        \<and> (read_int r2 = Inr (n, r2')
              \<and> int (length d) - cursor r2' < (if n < 0 then - n * 2 else n)
            \<longrightarrow> parse_string_table d = Inl (AssetParseException StructError))
        \<and> (read_string r2 = Inr (k3, r3) \<and> int (length d) - cursor r3 < 4
            \<longrightarrow> parse_string_table d = Inl (AssetParseException StructError))
        \<and> (read_string r2 = Inr (k3, r3) \<and> read_int r3 = Inr (n', r3')
              \<and> int (length d) - cursor r3' < (if n' < 0 then - n' * 2 else n')
            \<longrightarrow> parse_string_table d = Inl (AssetParseException StructError))"
    by blast
qed

theorem out_of_bounds_reads_witness:
  "int (length (data (new_reader [1, 2, 3]))) - cursor (new_reader [1, 2, 3]) < 4
   \<and> read_int (new_reader [1, 2, 3]) = Inl StructError
   \<and> read_uint (new_reader [1, 2, 3]) = Inl StructError
   \<and> read_table_head truncated_table = Inr (3, \<lparr>data = truncated_table, cursor = 134\<rparr>)
   \<and> read_entries 2 \<lparr>data = truncated_table, cursor = 134\<rparr> [] =
       Inr ([([75, 101, 121, 49], [86, 97, 108, 117, 101, 49]),
             ([75, 101, 121, 49], [86, 97, 108, 117, 101, 49])],
            \<lparr>data = truncated_table, cursor = 174\<rparr>)
   \<and> int (length truncated_table) - cursor \<lparr>data = truncated_table, cursor = 174\<rparr> < 4
   \<and> parse_string_table truncated_table = Inl (AssetParseException StructError)
   \<and> read_table_head short_key_table = Inr (3, \<lparr>data = short_key_table, cursor = 134\<rparr>)
   \<and> read_entries 2 \<lparr>data = short_key_table, cursor = 134\<rparr> [] =
       Inr ([([75, 101, 121, 49], [86, 97, 108, 117, 101, 49]),
             ([75, 101, 121, 49], [86, 97, 108, 117, 101, 49])],
            \<lparr>data = short_key_table, cursor = 174\<rparr>)
   \<and> read_int \<lparr>data = short_key_table, cursor = 174\<rparr> = Inr (5, \<lparr>data = short_key_table, cursor = 178\<rparr>)
   \<and> int (length short_key_table) - cursor \<lparr>data = short_key_table, cursor = 178\<rparr>
       < (if (5::int) < 0 then - 5 * 2 else 5)
   \<and> parse_string_table short_key_table = Inl (AssetParseException StructError)
   \<and> read_table_head missing_value_table = Inr (3, \<lparr>data = missing_value_table, cursor = 134\<rparr>)
   \<and> read_entries 2 \<lparr>data = missing_value_table, cursor = 134\<rparr> [] =
       Inr ([([75, 101, 121, 49], [86, 97, 108, 117, 101, 49]),
             ([75, 101, 121, 49], [86, 97, 108, 117, 101, 49])],
            \<lparr>data = missing_value_table, cursor = 174\<rparr>)
   \<and> read_string \<lparr>data = missing_value_table, cursor = 174\<rparr> =
       Inr ([75, 101, 121, 49], \<lparr>data = missing_value_table, cursor = 183\<rparr>)
   \<and> int (length missing_value_table) - cursor \<lparr>data = missing_value_table, cursor = 183\<rparr> < 4
   \<and> parse_string_table missing_value_table = Inl (AssetParseException StructError)
   \<and> read_table_head short_value_table = Inr (3, \<lparr>data = short_value_table, cursor = 134\<rparr>)
   \<and> read_entries 2 \<lparr>data = short_value_table, cursor = 134\<rparr> [] =
       Inr ([([75, 101, 121, 49], [86, 97, 108, 117, 101, 49]),
             ([75, 101, 121, 49], [86, 97, 108, 117, 101, 49])],
            \<lparr>data = short_value_table, cursor = 174\<rparr>)
   \<and> read_string \<lparr>data = short_value_table, cursor = 174\<rparr> =
       Inr ([75, 101, 121, 49], \<lparr>data = short_value_table, cursor = 183\<rparr>)
   \<and> read_int \<lparr>data = short_value_table, cursor = 183\<rparr> = Inr (7, \<lparr>data = short_value_table, cursor = 187\<rparr>)
   \<and> int (length short_value_table) - cursor \<lparr>data = short_value_table, cursor = 187\<rparr>
       < (if (7::int) < 0 then - 7 * 2 else 7)
   \<and> parse_string_table short_value_table = Inl (AssetParseException StructError)"
proof -
  have a: "int (length (data (new_reader [1, 2, 3]))) - cursor (new_reader [1, 2, 3]) < 4"
    by (simp add: new_reader_def)
  have h1: "read_table_head truncated_table = Inr (3, \<lparr>data = truncated_table, cursor = 134\<rparr>)"
    by code_simp
  have h2: "read_entries 2 \<lparr>data = truncated_table, cursor = 134\<rparr> [] =
      Inr ([([75, 101, 121, 49], [86, 97, 108, 117, 101, 49]),
            ([75, 101, 121, 49], [86, 97, 108, 117, 101, 49])],
           \<lparr>data = truncated_table, cursor = 174\<rparr>)"
    by code_simp
  have i1: "read_table_head short_key_table = Inr (3, \<lparr>data = short_key_table, cursor = 134\<rparr>)"
    by code_simp
  have i2: "read_entries 2 \<lparr>data = short_key_table, cursor = 134\<rparr> [] =
      Inr ([([75, 101, 121, 49], [86, 97, 108, 117, 101, 49]),
            ([75, 101, 121, 49], [86, 97, 108, 117, 101, 49])],
           \<lparr>data = short_key_table, cursor = 174\<rparr>)"
    by code_simp
  have j1: "read_table_head missing_value_table = Inr (3, \<lparr>data = missing_value_table, cursor = 134\<rparr>)"
    by code_simp
  have j2: "read_entries 2 \<lparr>data = missing_value_table, cursor = 134\<rparr> [] =
      Inr ([([75, 101, 121, 49], [86, 97, 108, 117, 101, 49]),
            ([75, 101, 121, 49], [86, 97, 108, 117, 101, 49])],
           \<lparr>data = missing_value_table, cursor = 174\<rparr>)"
    by code_simp
  have k1: "read_table_head short_value_table = Inr (3, \<lparr>data = short_value_table, cursor = 134\<rparr>)"
    by code_simp
  have k2: "read_entries 2 \<lparr>data = short_value_table, cursor = 134\<rparr> [] =
      Inr ([([75, 101, 121, 49], [86, 97, 108, 117, 101, 49]),
            ([75, 101, 121, 49], [86, 97, 108, 117, 101, 49])],
           \<lparr>data = short_value_table, cursor = 174\<rparr>)"
    by code_simp
  have h3: "int (length truncated_table) - cursor \<lparr>data = truncated_table, cursor = 174\<rparr> < 4"
    by code_simp
  have i3: "read_int \<lparr>data = short_key_table, cursor = 174\<rparr> = Inr (5, \<lparr>data = short_key_table, cursor = 178\<rparr>)"
    by code_simp
  have i4: "int (length short_key_table) - cursor \<lparr>data = short_key_table, cursor = 178\<rparr>
      < (if (5::int) < 0 then - 5 * 2 else 5)"
    by code_simp
  have j3: "read_string \<lparr>data = missing_value_table, cursor = 174\<rparr> =
      Inr ([75, 101, 121, 49], \<lparr>data = missing_value_table, cursor = 183\<rparr>)"
    by code_simp
  have j4: "int (length missing_value_table) - cursor \<lparr>data = missing_value_table, cursor = 183\<rparr> < 4"
    by code_simp
  have k3: "read_string \<lparr>data = short_value_table, cursor = 174\<rparr> =
      Inr ([75, 101, 121, 49], \<lparr>data = short_value_table, cursor = 183\<rparr>)"
    by code_simp
  have k4: "read_int \<lparr>data = short_value_table, cursor = 183\<rparr> = Inr (7, \<lparr>data = short_value_table, cursor = 187\<rparr>)"
    by code_simp
  have k5: "int (length short_value_table) - cursor \<lparr>data = short_value_table, cursor = 187\<rparr>
      < (if (7::int) < 0 then - 7 * 2 else 7)"
    by code_simp
  from a out_of_bounds_reads [where r = "new_reader [1, 2, 3]"]
  have c0: "read_int (new_reader [1, 2, 3]) = Inl StructError"
    and c0b: "read_uint (new_reader [1, 2, 3]) = Inl StructError"
    by blast+
  from h1 h2 h3 out_of_bounds_reads [where d = "truncated_table" and ?r0.0 = "\<lparr>data = truncated_table, cursor = 134\<rparr>" and ?r2.0 = "\<lparr>data = truncated_table, cursor = 174\<rparr>"]
  have c1: "parse_string_table truncated_table = Inl (AssetParseException StructError)"
    by blast
  from i1 i2 i3 i4 out_of_bounds_reads [where d = "short_key_table" and ?r0.0 = "\<lparr>data = short_key_table, cursor = 134\<rparr>" and ?r2.0 = "\<lparr>data = short_key_table, cursor = 174\<rparr>" and n = "5" and r2' = "\<lparr>data = short_key_table, cursor = 178\<rparr>"]
  have c2: "parse_string_table short_key_table = Inl (AssetParseException StructError)"
    by blast
  from j1 j2 j3 j4 out_of_bounds_reads [where d = "missing_value_table" and ?r0.0 = "\<lparr>data = missing_value_table, cursor = 134\<rparr>" and ?r2.0 = "\<lparr>data = missing_value_table, cursor = 174\<rparr>" and ?k3.0 = "[75, 101, 121, 49]" and ?r3.0 = "\<lparr>data = missing_value_table, cursor = 183\<rparr>"]
  have c3: "parse_string_table missing_value_table = Inl (AssetParseException StructError)"
    by blast
  from k1 k2 k3 k4 k5 out_of_bounds_reads [where d = "short_value_table" and ?r0.0 = "\<lparr>data = short_value_table, cursor = 134\<rparr>" and ?r2.0 = "\<lparr>data = short_value_table, cursor = 174\<rparr>" and ?k3.0 = "[75, 101, 121, 49]" and ?r3.0 = "\<lparr>data = short_value_table, cursor = 183\<rparr>" and n' = "7" and r3' = "\<lparr>data = short_value_table, cursor = 187\<rparr>"]
  have c4: "parse_string_table short_value_table = Inl (AssetParseException StructError)"
    by blast
  from a c0 c0b h1 h2 h3 c1 i1 i2 i3 i4 c2 j1 j2 j3 j4 c3 k1 k2 k3 k4 k5 c4 show ?thesis
    by blast
qed

text \<open>
  C2, as stated, fails: a string table whose number of entries is \<open>-1\<close> is parsed
  successfully, to the empty list.
\<close>

theorem negative_count_counterexample:
  "read_table_head negative_count_table = Inr (- 1, \<lparr>data = negative_count_table, cursor = 134\<rparr>)
   \<and> parse_string_table negative_count_table = Inr []"
  by code_simp

text \<open>
  C2, as amended. When everything before the number of entries is read successfully
  and that number is negative, \<^verbatim>\<open>parse_string_table\<close> succeeds and returns the empty
  list: \<^verbatim>\<open>range(count)\<close> is empty, the loop body never runs, and nothing is read after
  the count.
\<close>

theorem negative_count_empty:
  "read_table_head d = Inr (count, r) \<Longrightarrow> count < 0 \<Longrightarrow> parse_string_table d = Inr []"
  by (simp add: parse_string_table_def)

theorem negative_count_empty_witness:
  "read_table_head negative_count_table = Inr (- 1, \<lparr>data = negative_count_table, cursor = 134\<rparr>)
   \<and> (- 1 :: int) < 0
   \<and> parse_string_table negative_count_table = Inr []"
proof -
  have h: "read_table_head negative_count_table = Inr (- 1, \<lparr>data = negative_count_table, cursor = 134\<rparr>)"
    by code_simp
  from h negative_count_empty [OF h] show ?thesis by simp
qed

text \<open>
  C3, as stated, fails for the text that consists of the character U+FEFF, encoded as
  a wide string: the codec \<^verbatim>\<open>'utf-16'\<close> takes the two bytes \<^verbatim>\<open>FF FE\<close> of its encoding
  for a byte-order mark and drops them, and \<^verbatim>\<open>read_string\<close> returns the empty string.
\<close>

theorem read_string_bom_counterexample:
  "utf16_text [0xFEFF]
   \<and> read_string (new_reader (encode_utf16 [0xFEFF])) =
       Inr ([], \<lparr>data = encode_utf16 [0xFEFF], cursor = 8\<rparr>)"
  by code_simp

text \<open>
  C3, as amended. \<^verbatim>\<open>read_string\<close> round-trips on every encoded ASCII text and on every
  encoded wide text that does not begin with U+FEFF or U+FFFE: wherever the encoding
  lies in the buffer (at the cursor, with anything before and after it), the original
  text is returned without its terminator and the cursor is left after the
  terminator. And there are encoded buffers, one ASCII and one wide, on which
  changing the terminator away from NUL makes \<^verbatim>\<open>read_string\<close> raise "String not null
  terminated".
\<close>

theorem read_string_round_trip:
  "(ascii_text s \<and> 0 \<le> cursor r \<and> drop (nat (cursor r)) (data r) = encode_ascii s @ post
      \<longrightarrow> read_string r = Inr (s, r\<lparr>cursor := cursor r + 4 + (int (length s) + 1)\<rparr>))
   \<and> (utf16_text s \<and> \<not> bom_led s \<and> 0 \<le> cursor r
        \<and> drop (nat (cursor r)) (data r) = encode_utf16 s @ post
      \<longrightarrow> read_string r =
          Inr (s, r\<lparr>cursor := cursor r + 4 + 2 * (int (length (utf16_units s)) + 1)\<rparr>))
   \<and> read_string (new_reader ((encode_ascii [65])[5 := 1])) = Inl StringNotNullTerminated
   \<and> read_string (new_reader ((encode_utf16 [65])[6 := 1])) = Inl StringNotNullTerminated"
proof (intro conjI impI)
  assume "ascii_text s \<and> 0 \<le> cursor r \<and> drop (nat (cursor r)) (data r) = encode_ascii s @ post"
  then show "read_string r = Inr (s, r\<lparr>cursor := cursor r + 4 + (int (length s) + 1)\<rparr>)"
    using read_string_ascii_at [of s r post] by blast
next
  assume "utf16_text s \<and> \<not> bom_led s \<and> 0 \<le> cursor r
        \<and> drop (nat (cursor r)) (data r) = encode_utf16 s @ post"
  then show "read_string r =
          Inr (s, r\<lparr>cursor := cursor r + 4 + 2 * (int (length (utf16_units s)) + 1)\<rparr>)"
    using read_string_utf16_at [of s r post] by blast
next
  show "read_string (new_reader ((encode_ascii [65])[5 := 1])) = Inl StringNotNullTerminated"
    by code_simp
next
  show "read_string (new_reader ((encode_utf16 [65])[6 := 1])) = Inl StringNotNullTerminated"
    by code_simp
qed

theorem read_string_round_trip_witness:
  "ascii_text [72, 105]
   \<and> read_string (new_reader (encode_ascii [72, 105])) =
       Inr ([72, 105], (new_reader (encode_ascii [72, 105]))\<lparr>cursor := 7\<rparr>)
   \<and> utf16_text [65, 128512] \<and> \<not> bom_led [65, 128512]
   \<and> read_string (new_reader (encode_utf16 [65, 128512])) =
       Inr ([65, 128512], (new_reader (encode_utf16 [65, 128512]))\<lparr>cursor := 12\<rparr>)"
proof -
  have a: "ascii_text [72, 105]" by code_simp
  have u: "utf16_text [65, 128512]" by code_simp
  have b: "\<not> bom_led [65, 128512]" by simp
  have c: "0 \<le> cursor (new_reader xs)" "drop (nat (cursor (new_reader xs))) (data (new_reader xs)) = xs @ []"
    for xs by (simp_all add: new_reader_def)
  have "read_string (new_reader (encode_ascii [72, 105])) =
       Inr ([72, 105], (new_reader (encode_ascii [72, 105]))\<lparr>cursor := 7\<rparr>)"
    using read_string_round_trip [of "[72, 105]" "new_reader (encode_ascii [72, 105])" "[]"] a c
    by (simp add: new_reader_def)
  moreover have "read_string (new_reader (encode_utf16 [65, 128512])) =
       Inr ([65, 128512], (new_reader (encode_utf16 [65, 128512]))\<lparr>cursor := 12\<rparr>)"
    using read_string_round_trip [of "[65, 128512]" "new_reader (encode_utf16 [65, 128512])" "[]"] u b c
    by (simp add: new_reader_def)
  ultimately show ?thesis using a u b by blast
qed




end
